theory Spec2Isabelle
  imports Main "HOL-Library.AList" "HOL-Library.Product_Lexorder" "HOL-Library.Monad_Syntax"
    "HOL-Library.Multiset"
begin

section \<open>Python values, exceptions and strings\<close>

text \<open>
  The report generator \<^verbatim>\<open>license_report.py\<close> works on JSON data returned by the
  Meraki dashboard API. A JSON value is \<open>None\<close>, an integer, a string, a list or a
  dictionary;
  a dictionary keeps its insertion order, so it is an association list. A Python
  exception is a value on the left of a sum. Strings are lists of 8-bit characters.
\<close>

datatype pyval =
  PNone | PInt int | PStr string | PList "pyval list" | PDict "(string \<times> pyval) list"

type_synonym pydict = "(string \<times> pyval) list"

datatype pyerr =
  ValueError | TypeError | AttributeError | KeyError | IndexError | APIError | MarkupError

text \<open>\<^verbatim>\<open>d[k]\<close> raises \<open>KeyError\<close> on a missing key.\<close>

definition getitem :: "pydict \<Rightarrow> string \<Rightarrow> pyerr + pyval" where
  "getitem d k = (case map_of d k of None \<Rightarrow> Inl KeyError | Some v \<Rightarrow> Inr v)"

text \<open>Truth value of an object, as tested by \<^verbatim>\<open>if x:\<close>.\<close>

fun truthy :: "pyval \<Rightarrow> bool" where
  "truthy PNone = False"
| "truthy (PInt n) = (n \<noteq> 0)"
| "truthy (PStr s) = (s \<noteq> [])"
| "truthy (PList l) = (l \<noteq> [])"
| "truthy (PDict d) = (d \<noteq> [])"

definition ord :: "char \<Rightarrow> nat" where
  "ord c = of_char c"

definition isdigit :: "char \<Rightarrow> bool" where
  "isdigit c = (48 \<le> ord c \<and> ord c \<le> 57)"

text \<open>
  The whitespace of \<^verbatim>\<open>str.strip()\<close> and of the regular expression class \<^verbatim>\<open>\s\<close>,
  among the code points below 256.
\<close>

definition isspace :: "char \<Rightarrow> bool" where
  "isspace c = (ord c \<in> {9, 10, 11, 12, 13, 28, 29, 30, 31, 32, 133, 160})"

definition lower_char :: "char \<Rightarrow> char" where
  "lower_char c = (if 65 \<le> ord c \<and> ord c \<le> 90 then char_of (ord c + 32) else c)"

definition lower :: "string \<Rightarrow> string" where
  "lower s = map lower_char s"

definition strip :: "string \<Rightarrow> string" where
  "strip s = rev (dropWhile isspace (rev (dropWhile isspace s)))"

text \<open>
  \<^verbatim>\<open>s.replace(old, new)\<close>: every non-overlapping occurrence of \<open>old\<close>, from the left.
  An empty \<open>old\<close> matches before every character and at the end.
\<close>

fun replace_from :: "string \<Rightarrow> string \<Rightarrow> nat \<Rightarrow> string \<Rightarrow> string" where
  "replace_from old new skip [] = []"
| "replace_from old new (Suc k) (c # cs) = replace_from old new k cs"
| "replace_from old new 0 (c # cs) =
     (if take (length old) (c # cs) = old
      then new @ replace_from old new (length old - 1) cs
      else c # replace_from old new 0 cs)"

definition replace :: "string \<Rightarrow> string \<Rightarrow> string \<Rightarrow> string" where
  "replace old new s =
     (if old = [] then new @ concat (map (\<lambda>c. c # new) s) else replace_from old new 0 s)"

text \<open>\<^verbatim>\<open>str(n)\<close> and \<^verbatim>\<open>int(s)\<close> on decimal digits.\<close>

definition digit_char :: "nat \<Rightarrow> char" where
  "digit_char n = char_of (48 + n)"

definition digit_val :: "char \<Rightarrow> nat" where
  "digit_val c = ord c - 48"

fun str_nat :: "nat \<Rightarrow> string" where
  "str_nat n = (if n < 10 then [digit_char n] else str_nat (n div 10) @ [digit_char (n mod 10)])"

declare str_nat.simps [simp del]

definition str_int :: "int \<Rightarrow> string" where
  "str_int i = (if i < 0 then CHR ''-'' # str_nat (nat (- i)) else str_nat (nat i))"

definition int_digits :: "string \<Rightarrow> int" where
  "int_digits s = foldl (\<lambda>acc c. 10 * acc + int (digit_val c)) 0 s"

section \<open>The datetime module\<close>

record datetime =
  year :: int
  month :: int
  day :: int
  hour :: int
  minute :: int
  second :: int
  microsecond :: int

definition is_leap :: "int \<Rightarrow> bool" where
  "is_leap y = (y mod 4 = 0 \<and> (y mod 100 \<noteq> 0 \<or> y mod 400 = 0))"

definition DAYS_IN_MONTH :: "int list" where
  "DAYS_IN_MONTH = [0, 31, 28, 31, 30, 31, 30, 31, 31, 30, 31, 30, 31]"

definition DAYS_BEFORE_MONTH :: "int list" where
  "DAYS_BEFORE_MONTH = [0, 0, 31, 59, 90, 120, 151, 181, 212, 243, 273, 304, 334]"

definition days_in_month :: "int \<Rightarrow> int \<Rightarrow> int" where
  "days_in_month y m = (if m = 2 \<and> is_leap y then 29 else DAYS_IN_MONTH ! nat m)"

definition days_before_year :: "int \<Rightarrow> int" where
  "days_before_year y =
     (let y1 = y - 1 in y1 * 365 + y1 div 4 - y1 div 100 + y1 div 400)"

definition days_before_month :: "int \<Rightarrow> int \<Rightarrow> int" where
  "days_before_month y m =
     DAYS_BEFORE_MONTH ! nat m + (if m > 2 \<and> is_leap y then 1 else 0)"

definition toordinal :: "datetime \<Rightarrow> int" where
  "toordinal t = days_before_year (year t) + days_before_month (year t) (month t) + day t"

text \<open>
  The constructor \<^verbatim>\<open>datetime(year, month, day, hour, minute, second, microsecond)\<close>
  raises \<open>ValueError\<close> for a field out of range.
\<close>

definition datetime_new ::
  "int \<Rightarrow> int \<Rightarrow> int \<Rightarrow> int \<Rightarrow> int \<Rightarrow> int \<Rightarrow> int \<Rightarrow> pyerr + datetime" where
  "datetime_new y m d hh mm ss us =
     (if 1 \<le> y \<and> y \<le> 9999 \<and> 1 \<le> m \<and> m \<le> 12 \<and> 1 \<le> d \<and> d \<le> days_in_month y m
         \<and> 0 \<le> hh \<and> hh \<le> 23 \<and> 0 \<le> mm \<and> mm \<le> 59 \<and> 0 \<le> ss \<and> ss \<le> 59
         \<and> 0 \<le> us \<and> us \<le> 999999
      then Inr \<lparr>year = y, month = m, day = d, hour = hh, minute = mm, second = ss,
                microsecond = us\<rparr>
      else Inl ValueError)"

definition datetime_max :: datetime where
  "datetime_max = \<lparr>year = 9999, month = 12, day = 31, hour = 23, minute = 59, second = 59,
                    microsecond = 999999\<rparr>"

text \<open>Datetimes compare as the tuples of their fields.\<close>

definition dt_tuple :: "datetime \<Rightarrow> int \<times> int \<times> int \<times> int \<times> int \<times> int \<times> int" where
  "dt_tuple t = (year t, month t, day t, hour t, minute t, second t, microsecond t)"

record timedelta =
  days :: int
  seconds :: int
  microseconds :: int

text \<open>
  \<^verbatim>\<open>timedelta(days, seconds, microseconds)\<close> normalises its arguments: microseconds
  carry into seconds and seconds into days, with floor division, so that
  \<open>0 \<le> seconds < 86400\<close> and \<open>0 \<le> microseconds < 1000000\<close>.
\<close>

definition timedelta_new :: "int \<Rightarrow> int \<Rightarrow> int \<Rightarrow> timedelta" where
  "timedelta_new d s us =
     (let s1 = s + us div 1000000; us1 = us mod 1000000;
          d1 = d + s1 div 86400; s2 = s1 mod 86400
      in \<lparr>days = d1, seconds = s2, microseconds = us1\<rparr>)"

definition datetime_sub :: "datetime \<Rightarrow> datetime \<Rightarrow> timedelta" where
  "datetime_sub a b =
     (let days1 = toordinal a; days2 = toordinal b;
          secs1 = second a + minute a * 60 + hour a * 3600;
          secs2 = second b + minute b * 60 + hour b * 3600
      in timedelta_new (days1 - days2) (secs1 - secs2)
           (microsecond a - microsecond b))"

section \<open>Parsing and formatting dates\<close>

text \<open>
  \<^verbatim>\<open>datetime.strptime(s, format)\<close> compiles the format into a regular expression,
  matched without regard to case against the whole of \<open>s\<close>, and builds the datetime
  from the named groups; every failure is a \<open>ValueError\<close>. The three formats of the
  program give
  \<^item> \<^verbatim>\<open>'%b %d, %Y %Z'\<close>: \<^verbatim>\<open>(?P<b>jan|...|dec)\s+(?P<d>D),\s+(?P<Y>\d\d\d\d)\s+(?P<Z>utc|gmt)\<close>
  \<^item> \<^verbatim>\<open>'%b %d, %Y'\<close>: \<^verbatim>\<open>(?P<b>jan|...|dec)\s+(?P<d>D),\s+(?P<Y>\d\d\d\d)\<close>
  \<^item> \<^verbatim>\<open>'%Y-%m-%dT%H:%M:%SZ'\<close>:
    \<^verbatim>\<open>(?P<Y>\d\d\d\d)-(?P<m>1[0-2]|0[1-9]|[1-9])-(?P<d>D)T(?P<H>2[0-3]|[0-1]\d|\d):(?P<M>[0-5]\d|\d):(?P<S>6[0-1]|[0-5]\d|\d)Z\<close>

  where \<open>D\<close> is \<^verbatim>\<open>3[0-1]|[1-2]\d|0[1-9]|[1-9]| [1-9]\<close>. The zone names are \<open>utc\<close>,
  \<open>gmt\<close> and the names of the host's local zone; the host is taken to run in UTC.
  Every numeric group is followed by a literal that is no digit, or by the end of the
  string, so the group is the whole run of digits before it; after \<^verbatim>\<open>\s+\<close> the
  alternative of \<open>D\<close> that starts with a blank matches nothing that \<^verbatim>\<open>[1-9]\<close> does not.
  The parsers below read the string from the left accordingly.
\<close>

definition a_month :: "string list" where
  "a_month = ['''', ''Jan'', ''Feb'', ''Mar'', ''Apr'', ''May'', ''Jun'', ''Jul'', ''Aug'',
              ''Sep'', ''Oct'', ''Nov'', ''Dec'']"

definition timezone_names :: "string list" where
  "timezone_names = [''utc'', ''gmt'']"

fun index_of :: "'a \<Rightarrow> 'a list \<Rightarrow> nat option" where
  "index_of x [] = None"
| "index_of x (y # ys) = (if x = y then Some 0 else map_option Suc (index_of x ys))"

definition drange :: "nat \<Rightarrow> nat \<Rightarrow> char \<Rightarrow> bool" where
  "drange lo hi c = (isdigit c \<and> lo \<le> digit_val c \<and> digit_val c \<le> hi)"

definition re_d :: "string \<Rightarrow> bool" where
  "re_d tok = (case tok of
       [a] \<Rightarrow> drange 1 9 a
     | [a, b] \<Rightarrow> (drange 3 3 a \<and> drange 0 1 b) \<or> (drange 1 2 a \<and> isdigit b)
                 \<or> (drange 0 0 a \<and> drange 1 9 b)
     | _ \<Rightarrow> False)"

definition re_m :: "string \<Rightarrow> bool" where
  "re_m tok = (case tok of
       [a] \<Rightarrow> drange 1 9 a
     | [a, b] \<Rightarrow> (drange 1 1 a \<and> drange 0 2 b) \<or> (drange 0 0 a \<and> drange 1 9 b)
     | _ \<Rightarrow> False)"

definition re_H :: "string \<Rightarrow> bool" where
  "re_H tok = (case tok of
       [a] \<Rightarrow> isdigit a
     | [a, b] \<Rightarrow> (drange 2 2 a \<and> drange 0 3 b) \<or> (drange 0 1 a \<and> isdigit b)
     | _ \<Rightarrow> False)"

definition re_M :: "string \<Rightarrow> bool" where
  "re_M tok = (case tok of
       [a] \<Rightarrow> isdigit a
     | [a, b] \<Rightarrow> drange 0 5 a \<and> isdigit b
     | _ \<Rightarrow> False)"

definition re_S :: "string \<Rightarrow> bool" where
  "re_S tok = (case tok of
       [a] \<Rightarrow> isdigit a
     | [a, b] \<Rightarrow> (drange 6 6 a \<and> drange 0 1 b) \<or> (drange 0 5 a \<and> isdigit b)
     | _ \<Rightarrow> False)"

text \<open>A numeric group: the run of digits at the head of the input, if it has the group's form.\<close>

definition p_num :: "(string \<Rightarrow> bool) \<Rightarrow> string \<Rightarrow> (int \<times> string) option" where
  "p_num form s =
     (let tok = takeWhile isdigit s
      in if form tok then Some (int_digits tok, dropWhile isdigit s) else None)"

text \<open>The group \<open>D\<close> where no \<^verbatim>\<open>\s+\<close> precedes it: a blank and one digit is a day too.\<close>

definition p_day :: "string \<Rightarrow> (int \<times> string) option" where
  "p_day s = (case s of
       c # b # r \<Rightarrow> if c = CHR '' '' then (if drange 1 9 b then Some (int (digit_val b), r) else None)
                    else p_num re_d s
     | _ \<Rightarrow> p_num re_d s)"

definition p_year :: "string \<Rightarrow> (int \<times> string) option" where
  "p_year s =
     (if 4 \<le> length s \<and> list_all isdigit (take 4 s)
      then Some (int_digits (take 4 s), drop 4 s) else None)"

definition p_month :: "string \<Rightarrow> (int \<times> string) option" where
  "p_month s =
     (case index_of (lower (take 3 s)) (map lower (tl a_month)) of
        None \<Rightarrow> None
      | Some i \<Rightarrow> Some (int (Suc i), drop 3 s))"

definition p_ws :: "string \<Rightarrow> string option" where
  "p_ws s = (case s of [] \<Rightarrow> None
             | c # cs \<Rightarrow> if isspace c then Some (dropWhile isspace cs) else None)"

definition p_lit :: "char \<Rightarrow> string \<Rightarrow> string option" where
  "p_lit ch s = (case s of [] \<Rightarrow> None
                 | c # cs \<Rightarrow> if lower_char c = lower_char ch then Some cs else None)"

definition p_zone :: "string \<Rightarrow> string option" where
  "p_zone s = (if lower s \<in> set timezone_names then Some [] else None)"

definition p_end :: "string \<Rightarrow> unit option" where
  "p_end s = (if s = [] then Some () else None)"

definition match_bdY :: "string \<Rightarrow> ((int \<times> int \<times> int) \<times> string) option" where
  "match_bdY s = do {
     (m, s1) \<leftarrow> p_month s;
     s2 \<leftarrow> p_ws s1;
     (d, s3) \<leftarrow> p_num re_d s2;
     s4 \<leftarrow> p_lit CHR '','' s3;
     s5 \<leftarrow> p_ws s4;
     (y, s6) \<leftarrow> p_year s5;
     Some ((y, m, d), s6)
   }"

definition strptime_bdYZ :: "string \<Rightarrow> pyerr + datetime" where
  "strptime_bdYZ s =
     (case do { ((y, m, d), s6) \<leftarrow> match_bdY s;
                s7 \<leftarrow> p_ws s6;
                s8 \<leftarrow> p_zone s7;
                Some (y, m, d) } of
        None \<Rightarrow> Inl ValueError
      | Some (y, m, d) \<Rightarrow> datetime_new y m d 0 0 0 0)"

definition strptime_bdY :: "string \<Rightarrow> pyerr + datetime" where
  "strptime_bdY s =
     (case do { ((y, m, d), s6) \<leftarrow> match_bdY s;
                _ \<leftarrow> p_end s6;
                Some (y, m, d) } of
        None \<Rightarrow> Inl ValueError
      | Some (y, m, d) \<Rightarrow> datetime_new y m d 0 0 0 0)"

definition strptime_iso :: "string \<Rightarrow> pyerr + datetime" where
  "strptime_iso s =
     (case do { (y, s1) \<leftarrow> p_year s;
                s2 \<leftarrow> p_lit CHR ''-'' s1;
                (m, s3) \<leftarrow> p_num re_m s2;
                s4 \<leftarrow> p_lit CHR ''-'' s3;
                (d, s5) \<leftarrow> p_day s4;
                s6 \<leftarrow> p_lit CHR ''T'' s5;
                (hh, s7) \<leftarrow> p_num re_H s6;
                s8 \<leftarrow> p_lit CHR '':'' s7;
                (mm, s9) \<leftarrow> p_num re_M s8;
                s10 \<leftarrow> p_lit CHR '':'' s9;
                (ss, s11) \<leftarrow> p_num re_S s10;
                s12 \<leftarrow> p_lit CHR ''Z'' s11;
                _ \<leftarrow> p_end s12;
                Some (y, m, d, hh, mm, ss) } of
        None \<Rightarrow> Inl ValueError
      | Some (y, m, d, hh, mm, ss) \<Rightarrow> datetime_new y m d hh mm ss 0)"

text \<open>
  \<^verbatim>\<open>t.strftime('%b %d, %Y')\<close>: the month's abbreviation, the day on two digits and the
  year as the C library of the host prints it, which on Linux is without leading zeros.
\<close>

definition zfill :: "nat \<Rightarrow> string \<Rightarrow> string" where
  "zfill w s = replicate (w - length s) CHR ''0'' @ s"

definition strftime_bdY :: "datetime \<Rightarrow> string" where
  "strftime_bdY t =
     a_month ! nat (month t) @ '' '' @ zfill 2 (str_int (day t)) @ '', ''
       @ str_int (year t)"

section \<open>The expiration calculator\<close>

text \<open>
  \<^verbatim>\<open>get_days_remaining(expiration_date)\<close>; the reading of \<^verbatim>\<open>datetime.utcnow()\<close> that
  it takes first is the argument \<open>current_date\<close>.
\<close>

definition get_days_remaining :: "datetime \<Rightarrow> string \<Rightarrow> pyerr + string" where
  "get_days_remaining current_date expiration_date =
     (case strptime_bdYZ expiration_date of
        Inl e \<Rightarrow> Inl e
      | Inr target_date \<Rightarrow>
          (let days_difference = days (datetime_sub target_date current_date)
           in Inr (if days_difference > 0 then str_int days_difference else ''N/A'')))"

section \<open>The dashboard API\<close>

text \<open>
  The calls of the Meraki client that the program makes. Each returns parsed JSON or
  raises. \<open>getNetwork\<close> is the network-name resolver; the program's calls to it are
  recorded, in order, in a list of the network ids asked for, which the functions below
  take and return.
\<close>

record dashboard =
  getOrganizations :: "pyerr + pydict list"
  getOrganizationLicensesOverview :: "pyval \<Rightarrow> pyerr + pydict"
  getOrganizationLicenses :: "pyval \<Rightarrow> pyerr + pydict list"
  getNetwork :: "pyval \<Rightarrow> pyerr + pydict"

section \<open>Organizations with co-term licensing\<close>

text \<open>
  \<^verbatim>\<open>co_term_license(org_name, org_id)\<close>. \<^verbatim>\<open>d[k] = v\<close> on a dictionary is
  \<^const>\<open>AList.update\<close>: the value is replaced in place, or the pair is added at the end.
  A value that is no string has no method \<^verbatim>\<open>replace\<close>.
\<close>

definition co_term_license :: "dashboard \<Rightarrow> datetime \<Rightarrow> pyval \<Rightarrow> pyval \<Rightarrow> pyerr + pydict" where
  "co_term_license dash current_date org_name org_id =
     (let license_info = [(''Org. Name'', org_name), (''Org. ID'', org_id),
                          (''License Status'', PStr ''N/A''),
                          (''License Expiration'', PStr ''N/A''),
                          (''Days Remaining'', PStr ''N/A'')]
      in case getOrganizationLicensesOverview dash org_id of
           Inl e \<Rightarrow> Inl e
         | Inr license_overview \<Rightarrow>
        (case getitem license_overview ''status'' of
           Inl e \<Rightarrow> Inl e
         | Inr status \<Rightarrow>
        (let license_info = AList.update ''License Status'' status license_info
         in case getitem license_overview ''expirationDate'' of
              Inl e \<Rightarrow> Inl e
            | Inr (PStr expiration_date) \<Rightarrow>
               (let license_info =
                      AList.update ''License Expiration''
                        (PStr (strip (replace ''UTC'' '''' expiration_date))) license_info
                in case get_days_remaining current_date expiration_date of
                     Inl e \<Rightarrow> Inl e
                   | Inr remaining \<Rightarrow>
                       Inr (AList.update ''Days Remaining'' (PStr remaining) license_info))
            | Inr _ \<Rightarrow> Inl AttributeError)))"

section \<open>Organizations with per-device licensing\<close>

text \<open>
  The body of the loop of \<^verbatim>\<open>per_device_license\<close> for one license entry, with the
  resolver calls made so far. \<^verbatim>\<open>strptime\<close> raises \<open>TypeError\<close> on a value that is
  no string.
\<close>

definition per_device_entry ::
  "dashboard \<Rightarrow> pyval \<Rightarrow> pyval \<Rightarrow> pydict \<Rightarrow> pyval list \<Rightarrow> pyerr + (pydict \<times> pyval list)" where
  "per_device_entry dash org_name org_id license calls =
     (case getitem license ''licenseType'' of
        Inl e \<Rightarrow> Inl e
      | Inr license_type \<Rightarrow>
     (case getitem license ''state'' of
        Inl e \<Rightarrow> Inl e
      | Inr state \<Rightarrow>
     (let license_info = [(''Org. Name'', org_name), (''Org. ID'', org_id),
                          (''License Type'', license_type), (''License Status'', state),
                          (''License Expiration'', PStr ''N/A''),
                          (''Days Remaining'', PStr ''N/A''),
                          (''Associated Device'', PStr ''N/A''),
                          (''Associated Network'', PStr ''N/A'')]
      in case getitem license ''expirationDate'' of
           Inl e \<Rightarrow> Inl e
         | Inr expiration_date \<Rightarrow>
           if truthy expiration_date then
             (case expiration_date of
                PStr s \<Rightarrow>
                  (case strptime_iso s of
                     Inl e \<Rightarrow> Inl e
                   | Inr datetime_obj \<Rightarrow>
                  (let formatted_date = strftime_bdY datetime_obj;
                       license_info =
                         AList.update ''License Expiration'' (PStr formatted_date) license_info
                   in case getitem license ''durationInDays'' of
                        Inl e \<Rightarrow> Inl e
                      | Inr duration \<Rightarrow>
                  (let license_info = AList.update ''Days Remaining'' duration license_info
                   in case getitem license ''deviceSerial'' of
                        Inl e \<Rightarrow> Inl e
                      | Inr serial \<Rightarrow>
                  (let license_info = AList.update ''Associated Device'' serial license_info
                   in case getitem license ''networkId'' of
                        Inl e \<Rightarrow> Inl e
                      | Inr network_id \<Rightarrow>
                  (case getNetwork dash network_id of
                     Inl e \<Rightarrow> Inl e
                   | Inr network \<Rightarrow>
                  (case getitem network ''name'' of
                     Inl e \<Rightarrow> Inl e
                   | Inr network_name \<Rightarrow>
                       Inr (AList.update ''Associated Network'' network_name license_info,
                            calls @ [network_id])))))))
              | _ \<Rightarrow> Inl TypeError)
           else Inr (license_info, calls))))"

fun per_device_loop ::
  "dashboard \<Rightarrow> pyval \<Rightarrow> pyval \<Rightarrow> pydict list \<Rightarrow> pydict list \<Rightarrow> pyval list
     \<Rightarrow> pyerr + (pydict list \<times> pyval list)" where
  "per_device_loop dash org_name org_id [] per_device_licenses calls =
     Inr (per_device_licenses, calls)"
| "per_device_loop dash org_name org_id (license # rest) per_device_licenses calls =
     (case per_device_entry dash org_name org_id license calls of
        Inl e \<Rightarrow> Inl e
      | Inr (license_info, calls') \<Rightarrow>
          per_device_loop dash org_name org_id rest (per_device_licenses @ [license_info]) calls')"

definition per_device_license ::
  "dashboard \<Rightarrow> pyval \<Rightarrow> pyval \<Rightarrow> pyval list \<Rightarrow> pyerr + (pydict list \<times> pyval list)" where
  "per_device_license dash org_name org_id calls =
     (case getOrganizationLicenses dash org_id of
        Inl e \<Rightarrow> Inl e
      | Inr licenses \<Rightarrow> per_device_loop dash org_name org_id licenses [] calls)"

section \<open>Sorting a bucket by expiration\<close>

text \<open>
  The key of the two calls of \<^verbatim>\<open>sorted\<close> in \<^verbatim>\<open>main\<close>:
  \<^verbatim>\<open>strptime(item['License Expiration'], '%b %d, %Y') if item['License Expiration'] != 'N/A' else datetime.max\<close>.
\<close>

definition expiration_key :: "pydict \<Rightarrow> pyerr + datetime" where
  "expiration_key item =
     (case getitem item ''License Expiration'' of
        Inl e \<Rightarrow> Inl e
      | Inr v \<Rightarrow>
          if v \<noteq> PStr ''N/A''
          then (case v of PStr s \<Rightarrow> strptime_bdY s | _ \<Rightarrow> Inl TypeError)
          else Inr datetime_max)"

text \<open>
  \<^verbatim>\<open>sorted(xs, key=f)\<close> computes the key of every element, in order, and raises what
  the first failing key raises; then it sorts the elements by their keys, stably. A stable
  sort has one result only, that of \<^const>\<open>sort_key\<close>.
\<close>

fun keys_of :: "('a \<Rightarrow> pyerr + 'k) \<Rightarrow> 'a list \<Rightarrow> pyerr + 'k list" where
  "keys_of f [] = Inr []"
| "keys_of f (x # xs) =
     (case f x of
        Inl e \<Rightarrow> Inl e
      | Inr k \<Rightarrow> (case keys_of f xs of Inl e \<Rightarrow> Inl e | Inr ks \<Rightarrow> Inr (k # ks)))"

definition sort_by_expiration :: "pydict list \<Rightarrow> pyerr + pydict list" where
  "sort_by_expiration items =
     (case keys_of expiration_key items of
        Inl e \<Rightarrow> Inl e
      | Inr ks \<Rightarrow> Inr (map snd (sort_key (\<lambda>p. dt_tuple (fst p)) (zip ks items))))"

section \<open>Writing the report\<close>

text \<open>
  \<^verbatim>\<open>pd.DataFrame(records)\<close> of a list of dictionaries has for columns the keys of the
  dictionaries in the order of their first appearance, and one row for each dictionary;
  a cell is missing where the dictionary lacks the column. \<^verbatim>\<open>to_excel\<close> with
  \<^verbatim>\<open>index=False\<close> writes the columns as the header row, then the rows. A sheet is its
  name, its header row and its data rows; what the spreadsheet encoder does with them
  is outside the model.
\<close>

record sheet =
  sheet_name :: pyval
  columns :: "string list"
  rows :: "pyval option list list"

definition unique_keys :: "string list \<Rightarrow> string list" where
  "unique_keys ks = fold (\<lambda>k seen. if k \<in> set seen then seen else seen @ [k]) ks []"

definition DataFrame :: "pydict list \<Rightarrow> string list \<times> pyval option list list" where
  "DataFrame records =
     (let cols = unique_keys (concat (map (map fst) records))
      in (cols, map (\<lambda>r. map (map_of r) cols) records))"

definition to_excel :: "string list \<times> pyval option list list \<Rightarrow> pyval \<Rightarrow> sheet" where
  "to_excel df name = \<lparr>sheet_name = name, columns = fst df, rows = snd df\<rparr>"

section \<open>The main program\<close>

text \<open>
  The loop of \<^verbatim>\<open>main\<close> over the organizations, with the counter, the two buckets and
  the resolver calls. The reading of the clock taken while organization number
  \<open>counter\<close> is processed is \<open>utcnow counter\<close>.

  The loop prints through \<^verbatim>\<open>progress.console.print\<close> of the library rich: the
  progress line of every organization, made of its name, the counter and the number of
  organizations, and the record or records found for a co-term or per-device
  organization. rich reads square brackets in the text as markup and raises on markup it
  cannot read, so a print may raise with text that comes from the data. Printing is the
  parameter \<open>console_print\<close>, given the format string and the values formatted into it.
  The other prints of \<^verbatim>\<open>main\<close> have a fixed text.
\<close>

fun dispatch ::
  "dashboard \<Rightarrow> (string \<Rightarrow> pyval list \<Rightarrow> pyerr + unit) \<Rightarrow> (nat \<Rightarrow> datetime) \<Rightarrow> nat
     \<Rightarrow> pydict list \<Rightarrow> nat \<Rightarrow> pydict list \<Rightarrow> pydict list list \<Rightarrow> pyval list
     \<Rightarrow> pyerr + (pydict list \<times> pydict list list \<times> pyval list)" where
  "dispatch dash console_print utcnow len_orgs [] counter coterm_licenses per_device_licenses
     calls = Inr (coterm_licenses, per_device_licenses, calls)"
| "dispatch dash console_print utcnow len_orgs (org # orgs) counter coterm_licenses
     per_device_licenses calls =
     (case getitem org ''name'' of
        Inl e \<Rightarrow> Inl e
      | Inr name \<Rightarrow>
     (case console_print ''Processing Org: {} ({} of {})''
             [name, PStr (str_int (int counter)), PInt (int len_orgs)] of
        Inl e \<Rightarrow> Inl e
      | Inr _ \<Rightarrow>
     (case getitem org ''licensing'' of
        Inl e \<Rightarrow> Inl e
      | Inr (PDict licensing) \<Rightarrow>
         (case getitem licensing ''model'' of
            Inl e \<Rightarrow> Inl e
          | Inr license_type \<Rightarrow>
              if license_type = PStr ''co-term'' then
                (case getitem org ''id'' of
                   Inl e \<Rightarrow> Inl e
                 | Inr org_id \<Rightarrow>
                (case co_term_license dash (utcnow counter) name org_id of
                   Inl e \<Rightarrow> Inl e
                 | Inr license_info \<Rightarrow>
                (case console_print ''- Found the Following Co-term Information: {}''
                        [PDict license_info] of
                   Inl e \<Rightarrow> Inl e
                 | Inr _ \<Rightarrow>
                     dispatch dash console_print utcnow len_orgs orgs (counter + 1)
                       (coterm_licenses @ [license_info]) per_device_licenses calls)))
              else if license_type = PStr ''per-device'' then
                (case getitem org ''id'' of
                   Inl e \<Rightarrow> Inl e
                 | Inr org_id \<Rightarrow>
                (case per_device_license dash name org_id calls of
                   Inl e \<Rightarrow> Inl e
                 | Inr (license_info, calls') \<Rightarrow>
                (case console_print ''- Found the Following Per-Device Information: {}''
                        [PList (map PDict license_info)] of
                   Inl e \<Rightarrow> Inl e
                 | Inr _ \<Rightarrow>
                     dispatch dash console_print utcnow len_orgs orgs (counter + 1)
                       coterm_licenses (per_device_licenses @ [license_info]) calls')))
              else dispatch dash console_print utcnow len_orgs orgs (counter + 1)
                     coterm_licenses per_device_licenses calls)
      | Inr _ \<Rightarrow> Inl TypeError)))"

text \<open>
  The block \<^verbatim>\<open>with pd.ExcelWriter(destination_file) as writer\<close>. Its state is the list
  of the frames handed to the writer so far, each with the sheet name asked for; the
  block ends with this list and with the exception that stopped it, if one did. What the
  writer does with a sheet name (it refuses some characters, and writes frames of one
  name into one sheet) is outside the model.

  The loop over the per-device bucket hands over one frame for each organization.
\<close>

fun per_device_sheets :: "pydict list list \<Rightarrow> sheet list \<Rightarrow> sheet list \<times> pyerr option" where
  "per_device_sheets [] written = (written, None)"
| "per_device_sheets (org_licenses # rest) written =
     (case sort_by_expiration org_licenses of
        Inl e \<Rightarrow> (written, Some e)
      | Inr org_licenses_sorted \<Rightarrow>
     (let org_licenses_df = DataFrame org_licenses_sorted
      in case org_licenses_sorted of
           [] \<Rightarrow> (written, Some IndexError)
         | first # _ \<Rightarrow>
        (case getitem first ''Org. Name'' of
           Inl e \<Rightarrow> (written, Some e)
         | Inr name \<Rightarrow>
             per_device_sheets rest (written @ [to_excel org_licenses_df name]))))"

definition write_report :: "pydict list \<Rightarrow> pydict list list \<Rightarrow> sheet list \<times> pyerr option" where
  "write_report coterm_licenses per_device_licenses =
     (case sort_by_expiration coterm_licenses of
        Inl e \<Rightarrow> ([], Some e)
      | Inr coterm_licenses_sorted \<Rightarrow>
     (let coterm_licenses_df = DataFrame coterm_licenses_sorted
      in per_device_sheets per_device_licenses
           [to_excel coterm_licenses_df (PStr ''Co-term Customers'')]))"

text \<open>
  On leaving the block the writer saves the workbook, also when the block raised.
  Saving a workbook that has no sheet raises \<open>IndexError\<close>, which then stands in place
  of the exception of the block; with at least one sheet the workbook is saved and the
  exception of the block goes on.
\<close>

definition main ::
  "dashboard \<Rightarrow> (string \<Rightarrow> pyval list \<Rightarrow> pyerr + unit) \<Rightarrow> (nat \<Rightarrow> datetime)
     \<Rightarrow> pyerr + sheet list" where
  "main dash console_print utcnow =
     (case getOrganizations dash of
        Inl e \<Rightarrow> Inl e
      | Inr orgs \<Rightarrow>
     (case dispatch dash console_print utcnow (length orgs) orgs 1 [] [] [] of
        Inl e \<Rightarrow> Inl e
      | Inr (coterm_licenses, per_device_licenses, calls) \<Rightarrow>
     (case write_report coterm_licenses per_device_licenses of
        (written, None) \<Rightarrow> Inr written
      | (written, Some e) \<Rightarrow> Inl (if written = [] then IndexError else e))))"

section \<open>Notions of the specification\<close>

text \<open>
  The instant of a datetime in microseconds since the start of day 0 of the proleptic
  Gregorian calendar, and the number of whole days from one instant to another: the
  floor of the difference in days.
\<close>

definition micros :: "datetime \<Rightarrow> int" where
  "micros t =
     ((toordinal t * 86400 + (second t + minute t * 60 + hour t * 3600)) * 1000000
        + microsecond t)"

definition whole_days_between :: "datetime \<Rightarrow> datetime \<Rightarrow> int" where
  "whole_days_between target now = (micros target - micros now) div 86400000000"

text \<open>\<^verbatim>\<open>int(s)\<close> on an optional sign and decimal digits.\<close>

definition py_int :: "string \<Rightarrow> int" where
  "py_int s = (case s of [] \<Rightarrow> 0
               | c # cs \<Rightarrow> if c = CHR ''-'' then - int_digits cs else int_digits s)"

text \<open>
  A license entry has an expiration date when the value under \<open>expirationDate\<close> is
  neither null nor empty. The resolver calls that an entry accounts for: one, for its
  network id, when it has an expiration date, and none otherwise.
\<close>

definition expiration_present :: "pydict \<Rightarrow> bool" where
  "expiration_present license =
     (case map_of license ''expirationDate'' of Some v \<Rightarrow> truthy v | None \<Rightarrow> False)"

definition resolver_calls :: "pydict \<Rightarrow> pyval list" where
  "resolver_calls license =
     (if expiration_present license
      then (case map_of license ''networkId'' of Some n \<Rightarrow> [n] | None \<Rightarrow> [])
      else [])"

text \<open>
  A license entry that the loop of \<open>per_device_license\<close> can process: it has a type, a
  state and a value under \<open>expirationDate\<close>; when it has an expiration date, this is a
  string in the ISO format, the entry has a duration, a device serial and a network id,
  and the dashboard knows the network and its name.
\<close>

definition entry_well_formed :: "dashboard \<Rightarrow> pydict \<Rightarrow> bool" where
  "entry_well_formed dash license =
     (map_of license ''licenseType'' \<noteq> None \<and> map_of license ''state'' \<noteq> None
      \<and> (case map_of license ''expirationDate'' of
            None \<Rightarrow> False
          | Some v \<Rightarrow>
              if truthy v then
                (case v of
                   PStr s \<Rightarrow>
                     (case strptime_iso s of Inl e \<Rightarrow> False | Inr t \<Rightarrow> True)
                     \<and> map_of license ''durationInDays'' \<noteq> None
                     \<and> map_of license ''deviceSerial'' \<noteq> None
                     \<and> (case map_of license ''networkId'' of
                           None \<Rightarrow> False
                         | Some network_id \<Rightarrow>
                             (case getNetwork dash network_id of
                                Inl e \<Rightarrow> False
                              | Inr network \<Rightarrow> map_of network ''name'' \<noteq> None))
                 | _ \<Rightarrow> False)
              else True))"

text \<open>The columns of a sheet of per-device licenses.\<close>

definition per_device_columns :: "string list" where
  "per_device_columns = [''Org. Name'', ''Org. ID'', ''License Type'', ''License Status'',
     ''License Expiration'', ''Days Remaining'', ''Associated Device'', ''Associated Network'']"

text \<open>
  The rank of a record in a sorted bucket: the tuple of its key. A record is
  not applicable when its display field \<open>License Expiration\<close> is \<open>N/A\<close>.
\<close>

definition sort_rank :: "pydict \<Rightarrow> int \<times> int \<times> int \<times> int \<times> int \<times> int \<times> int" where
  "sort_rank item =
     (case expiration_key item of Inr k \<Rightarrow> dt_tuple k | Inl e \<Rightarrow> dt_tuple datetime_max)"

definition not_applicable :: "pydict \<Rightarrow> bool" where
  "not_applicable item = (map_of item ''License Expiration'' = Some (PStr ''N/A''))"


text \<open>The columns of the sheet of co-term licenses.\<close>

definition coterm_columns :: "string list" where
  "coterm_columns = [''Org. Name'', ''Org. ID'', ''License Status'', ''License Expiration'',
     ''Days Remaining'']"

text \<open>
  The licensing model of an organization, where it has one, and the records of an
  organization: those that carry its id and its name.
\<close>

definition org_model :: "pydict \<Rightarrow> pyval option" where
  "org_model org =
     (case map_of org ''licensing'' of
        Some (PDict licensing) \<Rightarrow> map_of licensing ''model''
      | _ \<Rightarrow> None)"

definition has_model :: "string \<Rightarrow> pydict \<Rightarrow> bool" where
  "has_model m org = (org_model org = Some (PStr m))"

definition of_org :: "pydict \<Rightarrow> pydict \<Rightarrow> bool" where
  "of_org org r =
     (map_of r ''Org. ID'' = map_of org ''id'' \<and> map_of r ''Org. Name'' = map_of org ''name'')"

section \<open>Example data\<close>

text \<open>
  Three organizations, one of each licensing model and one of a model the program does
  not know, with the answers of the dashboard for them and the records expected.
\<close>

definition license_unused :: pydict where
  "license_unused = [(''licenseType'', PStr ''MX''), (''state'', PStr ''unused''),
     (''expirationDate'', PNone), (''durationInDays'', PInt 365),
     (''deviceSerial'', PNone), (''networkId'', PNone)]"

definition license_expired :: pydict where
  "license_expired = [(''licenseType'', PStr ''MR''), (''state'', PStr ''expired''),
     (''expirationDate'', PStr ''2025-10-06T00:00:00Z''), (''durationInDays'', PInt (- 3)),
     (''deviceSerial'', PStr ''Q2AB''), (''networkId'', PStr ''N_1'')]"

definition example_orgs :: "pydict list" where
  "example_orgs =
     [[(''id'', PStr ''1''), (''name'', PStr ''Acme''),
       (''licensing'', PDict [(''model'', PStr ''co-term'')])],
      [(''id'', PStr ''2''), (''name'', PStr ''Bolt''),
       (''licensing'', PDict [(''model'', PStr ''per-device'')])],
      [(''id'', PStr ''3''), (''name'', PStr ''Core''),
       (''licensing'', PDict [(''model'', PStr ''subscription'')])]]"

definition example_dashboard :: dashboard where
  "example_dashboard =
     \<lparr>getOrganizations = Inr example_orgs,
      getOrganizationLicensesOverview =
        (\<lambda>org_id. Inr [(''status'', PStr ''OK''), (''expirationDate'', PStr ''Oct 6, 2025 UTC'')]),
      getOrganizationLicenses = (\<lambda>org_id. Inr [license_unused, license_expired]),
      getNetwork = (\<lambda>network_id. Inr [(''id'', network_id), (''name'', PStr ''HQ'')])\<rparr>"

definition example_console :: "string \<Rightarrow> pyval list \<Rightarrow> pyerr + unit" where
  "example_console format values = Inr ()"

definition example_now :: datetime where
  "example_now = \<lparr>year = 2025, month = 10, day = 1, hour = 0, minute = 0, second = 0,
                    microsecond = 0\<rparr>"

definition record_unused :: pydict where
  "record_unused = [(''Org. Name'', PStr ''Bolt''), (''Org. ID'', PStr ''2''),
     (''License Type'', PStr ''MX''), (''License Status'', PStr ''unused''),
     (''License Expiration'', PStr ''N/A''), (''Days Remaining'', PStr ''N/A''),
     (''Associated Device'', PStr ''N/A''), (''Associated Network'', PStr ''N/A'')]"

definition record_expired :: pydict where
  "record_expired = [(''Org. Name'', PStr ''Bolt''), (''Org. ID'', PStr ''2''),
     (''License Type'', PStr ''MR''), (''License Status'', PStr ''expired''),
     (''License Expiration'', PStr ''Oct 06, 2025''), (''Days Remaining'', PInt (- 3)),
     (''Associated Device'', PStr ''Q2AB''), (''Associated Network'', PStr ''HQ'')]"

definition record_coterm :: pydict where
  "record_coterm = [(''Org. Name'', PStr ''Acme''), (''Org. ID'', PStr ''1''),
     (''License Status'', PStr ''OK''), (''License Expiration'', PStr ''Oct 6, 2025''),
     (''Days Remaining'', PStr ''5'')]"

definition record_na :: pydict where
  "record_na = [(''Org. Name'', PStr ''Delta''), (''License Expiration'', PStr ''N/A'')]"

definition record_na2 :: pydict where
  "record_na2 = [(''Org. Name'', PStr ''Foxtrot''), (''License Expiration'', PStr ''N/A'')]"

definition record_jan :: pydict where
  "record_jan = [(''Org. Name'', PStr ''Echo''), (''License Expiration'', PStr ''Jan 1, 2026'')]"


definition example_clock :: "nat \<Rightarrow> datetime" where
  "example_clock counter = example_now"

definition empty_dashboard :: dashboard where
  "empty_dashboard = example_dashboard \<lparr>getOrganizations := Inr []\<rparr>"

definition sheet_coterm :: sheet where
  "sheet_coterm =
     \<lparr>sheet_name = PStr ''Co-term Customers'',
      columns = [''Org. Name'', ''Org. ID'', ''License Status'', ''License Expiration'',
                 ''Days Remaining''],
      rows = [[Some (PStr ''Acme''), Some (PStr ''1''), Some (PStr ''OK''),
               Some (PStr ''Oct 6, 2025''), Some (PStr ''5'')]]\<rparr>"

definition sheet_bolt :: sheet where
  "sheet_bolt =
     \<lparr>sheet_name = PStr ''Bolt'',
      columns = [''Org. Name'', ''Org. ID'', ''License Type'', ''License Status'',
                 ''License Expiration'', ''Days Remaining'', ''Associated Device'',
                 ''Associated Network''],
      rows = [[Some (PStr ''Bolt''), Some (PStr ''2''), Some (PStr ''MR''),
               Some (PStr ''expired''), Some (PStr ''Oct 06, 2025''), Some (PInt (- 3)),
               Some (PStr ''Q2AB''), Some (PStr ''HQ'')],
              [Some (PStr ''Bolt''), Some (PStr ''2''), Some (PStr ''MX''),
               Some (PStr ''unused''), Some (PStr ''N/A''), Some (PStr ''N/A''),
               Some (PStr ''N/A''), Some (PStr ''N/A'')]]\<rparr>"

section \<open>Properties\<close>

subsection \<open>Decimal numerals\<close>

lemma digit_val_digit_char: "n < 10 \<Longrightarrow> digit_val (digit_char n) = n"
  by (simp add: digit_val_def digit_char_def ord_def)

lemma isdigit_digit_char: "n < 10 \<Longrightarrow> isdigit (digit_char n)"
  by (simp add: isdigit_def digit_char_def ord_def)

lemma int_digits_snoc: "int_digits (xs @ [c]) = 10 * int_digits xs + int (digit_val c)"
  by (simp add: int_digits_def)

lemma int_digits_str_nat: "int_digits (str_nat n) = int n"
proof (induction n rule: str_nat.induct)
  case (1 n)
  show ?case
  proof (cases "n < 10")
    case True
    then show ?thesis
      by (subst str_nat.simps) (simp add: int_digits_def digit_val_digit_char)
  next
    case False
    then have "int_digits (str_nat n) =
        10 * int_digits (str_nat (n div 10)) + int (digit_val (digit_char (n mod 10)))"
      by (subst str_nat.simps) (simp add: int_digits_snoc)
    also have "\<dots> = 10 * int (n div 10) + int (n mod 10)"
      using False 1 by (simp add: digit_val_digit_char)
    also have "\<dots> = int n"
      by presburger
    finally show ?thesis .
  qed
qed

lemma str_nat_digits: "list_all isdigit (str_nat n)"
proof (induction n rule: str_nat.induct)
  case (1 n)
  show ?case
  proof (cases "n < 10")
    case True
    then show ?thesis by (subst str_nat.simps) (simp add: isdigit_digit_char)
  next
    case False
    with 1 show ?thesis by (subst str_nat.simps) (simp add: isdigit_digit_char)
  qed
qed

lemma str_nat_nonempty: "str_nat n \<noteq> []"
  by (subst str_nat.simps) simp

lemma py_int_str_int: "py_int (str_int i) = i"
proof (cases "i < 0")
  case True
  then show ?thesis by (simp add: py_int_def str_int_def int_digits_str_nat)
next
  case False
  obtain c cs where cs: "str_nat (nat i) = c # cs"
    using str_nat_nonempty by (cases "str_nat (nat i)") auto
  have "isdigit c" using str_nat_digits [of "nat i"] cs by simp
  then have "c \<noteq> CHR ''-''" by (auto simp: isdigit_def ord_def)
  with False cs show ?thesis
    using int_digits_str_nat [of "nat i"] by (simp add: py_int_def str_int_def)
qed

lemma str_int_inj: "str_int i = str_int j \<Longrightarrow> i = j"
  by (metis py_int_str_int)

lemma str_int_not_NA: "str_int i \<noteq> ''N/A''"
proof
  assume a: "str_int i = ''N/A''"
  show False
  proof (cases "i < 0")
    case True
    with a show ?thesis by (simp add: str_int_def)
  next
    case False
    with a have "str_nat (nat i) = ''N/A''" by (simp add: str_int_def)
    with str_nat_digits [of "nat i"] show ?thesis by (simp add: isdigit_def ord_def)
  qed
qed

subsection \<open>Subtraction of datetimes\<close>

lemma timedelta_new_days:
  "days (timedelta_new d s us) = ((d * 86400 + s) * 1000000 + us) div 86400000000"
proof -
  have a: "((d * 86400 + s) * 1000000 + us) div 1000000 = d * 86400 + s + us div 1000000"
    by simp
  have "((d * 86400 + s) * 1000000 + us) div (1000000 * 86400)
          = (((d * 86400 + s) * 1000000 + us) div 1000000) div 86400"
    by (rule zdiv_zmult2_eq) simp
  also have "\<dots> = (d * 86400 + (s + us div 1000000)) div 86400"
    by (simp only: a add.assoc)
  also have "\<dots> = d + (s + us div 1000000) div 86400"
    by simp
  finally show ?thesis
    by (simp add: timedelta_new_def Let_def)
qed

lemma days_datetime_sub: "days (datetime_sub a b) = whole_days_between a b"
  unfolding datetime_sub_def Let_def timedelta_new_days whole_days_between_def micros_def
  by (simp add: algebra_simps)

subsection \<open>The expiration calculator\<close>

text \<open>
  Claim C1. For a timestamp that \<^verbatim>\<open>strptime\<close> accepts, \<open>get_days_remaining\<close> returns
  the decimal numeral of the whole days from the current UTC time to the timestamp when
  that number is strictly positive, and \<open>N/A\<close> when it is zero or negative; what it
  returns is never the numeral of zero or of a negative number.
\<close>

theorem get_days_remaining_whole_days:
  "strptime_bdYZ s = Inr t \<Longrightarrow>
     get_days_remaining now s =
       Inr (if 0 < whole_days_between t now then str_int (whole_days_between t now)
            else ''N/A'')
     \<and> (\<forall>n\<le>0. get_days_remaining now s \<noteq> Inr (str_int n))"
  using str_int_not_NA [symmetric]
  by (auto simp: get_days_remaining_def Let_def days_datetime_sub dest: str_int_inj)

theorem get_days_remaining_whole_days_witness:
  "strptime_bdYZ ''Oct 6, 2025 UTC''
     = Inr \<lparr>year = 2025, month = 10, day = 6, hour = 0, minute = 0, second = 0,
             microsecond = 0\<rparr>
   \<and> get_days_remaining
       \<lparr>year = 2025, month = 10, day = 1, hour = 0, minute = 0, second = 0, microsecond = 0\<rparr>
       ''Oct 6, 2025 UTC'' = Inr ''5''
   \<and> get_days_remaining
       \<lparr>year = 2025, month = 10, day = 1, hour = 0, minute = 0, second = 0, microsecond = 0\<rparr>
       ''Oct 6, 2025 UTC'' \<noteq> Inr ''0''"
proof -
  have p: "strptime_bdYZ ''Oct 6, 2025 UTC''
     = Inr \<lparr>year = 2025, month = 10, day = 6, hour = 0, minute = 0, second = 0,
             microsecond = 0\<rparr>"
    by code_simp
  have w: "whole_days_between
      \<lparr>year = 2025, month = 10, day = 6, hour = 0, minute = 0, second = 0, microsecond = 0\<rparr>
      \<lparr>year = 2025, month = 10, day = 1, hour = 0, minute = 0, second = 0, microsecond = 0\<rparr>
      = 5"
    by code_simp
  have s: "str_int 5 = ''5''"
    by code_simp
  have z: "str_int 0 = ''0''"
    by code_simp
  show ?thesis
    using get_days_remaining_whole_days [OF p,
        of "\<lparr>year = 2025, month = 10, day = 1, hour = 0, minute = 0, second = 0,
             microsecond = 0\<rparr>"]
    by (auto simp: p w s z [symmetric])
qed

text \<open>
  Claim C10. A timestamp strictly in the future but less than one whole day away from
  the current UTC time gives \<open>N/A\<close>: the difference in whole days is floored to zero.
\<close>

theorem get_days_remaining_under_a_day:
  "strptime_bdYZ s = Inr t \<Longrightarrow> micros now < micros t \<Longrightarrow>
   micros t - micros now < 86400000000 \<Longrightarrow> get_days_remaining now s = Inr ''N/A''"
  by (simp add: get_days_remaining_def Let_def days_datetime_sub whole_days_between_def)

theorem get_days_remaining_under_a_day_witness:
  "get_days_remaining
     \<lparr>year = 2025, month = 10, day = 5, hour = 12, minute = 0, second = 0, microsecond = 0\<rparr>
     ''Oct 6, 2025 UTC'' = Inr ''N/A''"
proof -
  have p: "strptime_bdYZ ''Oct 6, 2025 UTC''
     = Inr \<lparr>year = 2025, month = 10, day = 6, hour = 0, minute = 0, second = 0,
             microsecond = 0\<rparr>"
    by code_simp
  have a: "micros \<lparr>year = 2025, month = 10, day = 5, hour = 12, minute = 0, second = 0,
                   microsecond = 0\<rparr>
         < micros \<lparr>year = 2025, month = 10, day = 6, hour = 0, minute = 0, second = 0,
                   microsecond = 0\<rparr>"
    by code_simp
  have b: "micros \<lparr>year = 2025, month = 10, day = 6, hour = 0, minute = 0, second = 0,
                   microsecond = 0\<rparr>
         - micros \<lparr>year = 2025, month = 10, day = 5, hour = 12, minute = 0, second = 0,
                   microsecond = 0\<rparr> < 86400000000"
    by code_simp
  show ?thesis
    by (rule get_days_remaining_under_a_day [OF p a b])
qed

subsection \<open>Per-device licenses\<close>

lemma getitem_Inr: "getitem d k = Inr v \<longleftrightarrow> map_of d k = Some v"
  by (simp add: getitem_def split: option.splits)

lemma per_device_entry_present:
  assumes "per_device_entry dash n i l calls = Inr (r, calls')" and "expiration_present l"
  shows "map_of r ''Days Remaining'' = map_of l ''durationInDays''
         \<and> calls' = calls @ resolver_calls l"
  using assms unfolding per_device_entry_def Let_def
  by (simp add: expiration_present_def resolver_calls_def getitem_Inr
      split: sum.splits pyval.splits if_splits; auto)

lemma per_device_entry_absent:
  assumes "per_device_entry dash n i l calls = Inr (r, calls')" and "\<not> expiration_present l"
  shows "map_of r ''License Expiration'' = Some (PStr ''N/A'')
         \<and> map_of r ''Days Remaining'' = Some (PStr ''N/A'')
         \<and> map_of r ''Associated Device'' = Some (PStr ''N/A'')
         \<and> map_of r ''Associated Network'' = Some (PStr ''N/A'')
         \<and> calls' = calls \<and> resolver_calls l = []"
  using assms unfolding per_device_entry_def Let_def
  by (simp add: expiration_present_def resolver_calls_def getitem_Inr
      split: sum.splits pyval.splits if_splits; auto)

lemma per_device_entry_keys:
  assumes "per_device_entry dash n i l calls = Inr (r, calls')"
  shows "map fst r = per_device_columns \<and> map_of r ''Org. ID'' = Some i
         \<and> map_of r ''Org. Name'' = Some n"
  using assms unfolding per_device_entry_def Let_def
  by (simp add: per_device_columns_def getitem_Inr
      split: sum.splits pyval.splits if_splits; auto)

lemma per_device_loop_Inr:
  "per_device_loop dash n i ls acc calls = Inr (recs, calls') \<Longrightarrow>
   \<exists>rs. recs = acc @ rs
        \<and> list_all2 (\<lambda>l r. \<exists>c c'. per_device_entry dash n i l c = Inr (r, c')) ls rs
        \<and> calls' = calls @ concat (map resolver_calls ls)"
proof (induction ls arbitrary: acc calls)
  case Nil
  then show ?case by simp
next
  case (Cons l ls)
  from Cons.prems obtain r c1 where
    e: "per_device_entry dash n i l calls = Inr (r, c1)" and
    rest: "per_device_loop dash n i ls (acc @ [r]) c1 = Inr (recs, calls')"
    by (auto split: sum.splits)
  from Cons.IH [OF rest] obtain rs where
    rs: "recs = (acc @ [r]) @ rs"
        "list_all2 (\<lambda>l r. \<exists>c c'. per_device_entry dash n i l c = Inr (r, c')) ls rs"
        "calls' = c1 @ concat (map resolver_calls ls)"
    by blast
  have c1: "c1 = calls @ resolver_calls l"
  proof (cases "expiration_present l")
    case True
    with e show ?thesis using per_device_entry_present by blast
  next
    case False
    with e show ?thesis using per_device_entry_absent by fastforce
  qed
  show ?case
  proof (intro exI conjI)
    show "recs = acc @ (r # rs)" using rs(1) by simp
    show "list_all2 (\<lambda>l r. \<exists>c c'. per_device_entry dash n i l c = Inr (r, c')) (l # ls) (r # rs)"
      using e rs(2) by auto
    show "calls' = calls @ concat (map resolver_calls (l # ls))"
      using rs(3) c1 by simp
  qed
qed

lemma per_device_license_Inr:
  assumes "per_device_license dash n i calls = Inr (recs, calls')"
  shows "\<exists>licenses. getOrganizationLicenses dash i = Inr licenses
          \<and> list_all2 (\<lambda>l r. \<exists>c c'. per_device_entry dash n i l c = Inr (r, c')) licenses recs
          \<and> calls' = calls @ concat (map resolver_calls licenses)"
  using assms per_device_loop_Inr [of dash n i _ "[]" calls recs calls']
  by (auto simp: per_device_license_def split: sum.splits)

text \<open>
  Claim C7. For a per-device organization that owns \<open>n\<close> license entries,
  \<open>per_device_license\<close> returns exactly \<open>n\<close> records, one for each entry, with or
  without an expiration date.
\<close>

theorem per_device_one_record_per_license:
  assumes "per_device_license dash org_name org_id calls = Inr (recs, calls')"
  shows "\<exists>licenses. getOrganizationLicenses dash org_id = Inr licenses
                \<and> length recs = length licenses"
proof -
  from per_device_license_Inr [OF assms] obtain licenses where
    g: "getOrganizationLicenses dash org_id = Inr licenses" and
    l2: "list_all2 (\<lambda>l r. \<exists>c c'. per_device_entry dash org_name org_id l c = Inr (r, c'))
           licenses recs"
    by blast
  from l2 have "length recs = length licenses"
    by (simp add: list_all2_lengthD)
  with g show ?thesis by simp
qed

lemma per_device_entry_total:
  assumes "entry_well_formed dash l"
  shows "\<exists>r calls'. per_device_entry dash n i l calls = Inr (r, calls')"
proof -
  from assms obtain lt st v where lt: "getitem l ''licenseType'' = Inr lt"
    and st: "getitem l ''state'' = Inr st" and v: "getitem l ''expirationDate'' = Inr v"
    by (auto simp: entry_well_formed_def getitem_def split: option.splits)
  show ?thesis
  proof (cases "truthy v")
    case False
    with lt st v show ?thesis by (simp add: per_device_entry_def)
  next
    case True
    with assms v obtain s t dur ser nid net nm where "v = PStr s" "strptime_iso s = Inr t"
      "getitem l ''durationInDays'' = Inr dur" "getitem l ''deviceSerial'' = Inr ser"
      "getitem l ''networkId'' = Inr nid" "getNetwork dash nid = Inr net"
      "getitem net ''name'' = Inr nm"
      by (auto simp: entry_well_formed_def getitem_def
          split: option.splits pyval.splits sum.splits)
    with lt st v True show ?thesis by (simp add: per_device_entry_def)
  qed
qed

lemma per_device_loop_total:
  "list_all (entry_well_formed dash) ls \<Longrightarrow>
   \<exists>recs calls'. per_device_loop dash n i ls acc calls = Inr (recs, calls')"
proof (induction ls arbitrary: acc calls)
  case Nil
  then show ?case by simp
next
  case (Cons l ls)
  then have "entry_well_formed dash l" and rest: "list_all (entry_well_formed dash) ls"
    by simp_all
  from per_device_entry_total [OF this(1)] obtain r c1 where
    "per_device_entry dash n i l calls = Inr (r, c1)"
    by blast
  with Cons.IH [OF rest, of "acc @ [r]" c1] show ?case by simp
qed

text \<open>
  Claim C3. For a license entry that has an expiration date, the record's
  \<open>Days Remaining\<close> is the value of \<open>durationInDays\<close> as the provider gave it:
  it is not computed by \<open>get_days_remaining\<close> and not replaced by \<open>N/A\<close>, whatever
  its sign. And \<open>per_device_license\<close> does return the records when every entry of
  the organization is one that the loop can process.
\<close>

theorem per_device_days_remaining_verbatim:
  "(per_device_license dash org_name org_id calls = Inr (recs, calls')
      \<and> getOrganizationLicenses dash org_id = Inr licenses
      \<and> k < length licenses \<and> expiration_present (licenses ! k) \<longrightarrow>
    map_of (recs ! k) ''Days Remaining'' = map_of (licenses ! k) ''durationInDays'')
   \<and> (getOrganizationLicenses dash org_id = Inr licenses
      \<and> list_all (entry_well_formed dash) licenses \<longrightarrow>
    (\<exists>recs calls'. per_device_license dash org_name org_id calls = Inr (recs, calls')))"
proof (intro conjI impI)
  assume a: "per_device_license dash org_name org_id calls = Inr (recs, calls')
      \<and> getOrganizationLicenses dash org_id = Inr licenses
      \<and> k < length licenses \<and> expiration_present (licenses ! k)"
  then have run: "per_device_license dash org_name org_id calls = Inr (recs, calls')"
    and g: "getOrganizationLicenses dash org_id = Inr licenses"
    and k: "k < length licenses" and p: "expiration_present (licenses ! k)"
    by simp_all
  from per_device_license_Inr [OF run] g
  have l2: "list_all2 (\<lambda>l r. \<exists>c c'. per_device_entry dash org_name org_id l c = Inr (r, c'))
              licenses recs"
    by auto
  from list_all2_nthD [OF l2 k] obtain c c' where
    "per_device_entry dash org_name org_id (licenses ! k) c = Inr (recs ! k, c')"
    by blast
  from per_device_entry_present [OF this p]
  show "map_of (recs ! k) ''Days Remaining'' = map_of (licenses ! k) ''durationInDays''"
    by simp
next
  assume "getOrganizationLicenses dash org_id = Inr licenses
      \<and> list_all (entry_well_formed dash) licenses"
  then have g: "getOrganizationLicenses dash org_id = Inr licenses"
    and wf: "list_all (entry_well_formed dash) licenses"
    by simp_all
  from per_device_loop_total [OF wf, of org_name org_id "[]" calls] g
  show "\<exists>recs calls'. per_device_license dash org_name org_id calls = Inr (recs, calls')"
    by (simp add: per_device_license_def)
qed

text \<open>
  Claim C6. For a license entry without an expiration date, the record has \<open>N/A\<close> for
  \<open>License Expiration\<close>, \<open>Days Remaining\<close>, \<open>Associated Device\<close> and
  \<open>Associated Network\<close>, and the network-name resolver is not called for the entry:
  the calls made are those of the entries that have an expiration date.
\<close>

theorem per_device_absent_expiration_defaults:
  assumes "per_device_license dash org_name org_id calls = Inr (recs, calls')"
    and "getOrganizationLicenses dash org_id = Inr licenses"
    and "k < length licenses" and "\<not> expiration_present (licenses ! k)"
  shows "map_of (recs ! k) ''License Expiration'' = Some (PStr ''N/A'')
       \<and> map_of (recs ! k) ''Days Remaining'' = Some (PStr ''N/A'')
       \<and> map_of (recs ! k) ''Associated Device'' = Some (PStr ''N/A'')
       \<and> map_of (recs ! k) ''Associated Network'' = Some (PStr ''N/A'')
       \<and> resolver_calls (licenses ! k) = []
       \<and> calls' = calls @ concat (map resolver_calls licenses)"
proof -
  from per_device_license_Inr [OF assms(1)] assms(2)
  have l2: "list_all2 (\<lambda>l r. \<exists>c c'. per_device_entry dash org_name org_id l c = Inr (r, c'))
              licenses recs"
    and cs: "calls' = calls @ concat (map resolver_calls licenses)"
    by auto
  from list_all2_nthD [OF l2 assms(3)] obtain c c' where
    "per_device_entry dash org_name org_id (licenses ! k) c = Inr (recs ! k, c')"
    by blast
  from per_device_entry_absent [OF this assms(4)] cs show ?thesis
    by simp
qed


lemma example_per_device:
  "per_device_license example_dashboard (PStr ''Bolt'') (PStr ''2'') []
     = Inr ([record_unused, record_expired], [PStr ''N_1''])"
  by code_simp

lemma example_licenses:
  "getOrganizationLicenses example_dashboard (PStr ''2'') = Inr [license_unused, license_expired]"
  by (simp add: example_dashboard_def)

theorem per_device_one_record_per_license_witness:
  "per_device_license example_dashboard (PStr ''Bolt'') (PStr ''2'') []
     = Inr ([record_unused, record_expired], [PStr ''N_1''])
   \<and> (\<exists>licenses. getOrganizationLicenses example_dashboard (PStr ''2'') = Inr licenses
         \<and> length [record_unused, record_expired] = length licenses)"
  using per_device_one_record_per_license [OF example_per_device] example_per_device
  by simp

theorem per_device_days_remaining_verbatim_witness:
  "per_device_license example_dashboard (PStr ''Bolt'') (PStr ''2'') []
     = Inr ([record_unused, record_expired], [PStr ''N_1''])
   \<and> getOrganizationLicenses example_dashboard (PStr ''2'')
     = Inr [license_unused, license_expired]
   \<and> list_all (entry_well_formed example_dashboard) [license_unused, license_expired]
   \<and> expiration_present license_expired
   \<and> map_of license_expired ''durationInDays'' = Some (PInt (- 3))
   \<and> map_of ([record_unused, record_expired] ! 1) ''Days Remaining'' = Some (PInt (- 3))
   \<and> (\<exists>recs calls'. per_device_license example_dashboard (PStr ''Bolt'') (PStr ''2'') []
          = Inr (recs, calls'))"
proof -
  have p: "expiration_present ([license_unused, license_expired] ! 1)"
    by (simp add: expiration_present_def license_expired_def)
  have d: "map_of license_expired ''durationInDays'' = Some (PInt (- 3))"
    by (simp add: license_expired_def)
  have wf: "list_all (entry_well_formed example_dashboard) [license_unused, license_expired]"
    by code_simp
  from per_device_days_remaining_verbatim [where dash = example_dashboard
      and org_name = "PStr ''Bolt''" and org_id = "PStr ''2''" and calls = "[]"
      and recs = "[record_unused, record_expired]" and calls' = "[PStr ''N_1'']"
      and licenses = "[license_unused, license_expired]" and k = 1]
    example_per_device example_licenses p d wf
  show ?thesis by simp
qed

theorem per_device_absent_expiration_defaults_witness:
  "\<not> expiration_present license_unused
   \<and> map_of record_unused ''License Expiration'' = Some (PStr ''N/A'')
   \<and> map_of record_unused ''Days Remaining'' = Some (PStr ''N/A'')
   \<and> map_of record_unused ''Associated Device'' = Some (PStr ''N/A'')
   \<and> map_of record_unused ''Associated Network'' = Some (PStr ''N/A'')
   \<and> resolver_calls license_unused = []
   \<and> [PStr ''N_1''] = [] @ concat (map resolver_calls [license_unused, license_expired])"
proof -
  have p: "\<not> expiration_present ([license_unused, license_expired] ! 0)"
    by (simp add: expiration_present_def license_unused_def)
  show ?thesis
    using per_device_absent_expiration_defaults [OF example_per_device example_licenses _ p] p
    by simp
qed

subsection \<open>Sorting a bucket\<close>


lemma dt_tuple_inj: "dt_tuple a = dt_tuple b \<Longrightarrow> a = b"
  by (cases a, cases b) (simp add: dt_tuple_def)

lemma days_in_month_le: "1 \<le> m \<Longrightarrow> m \<le> 12 \<Longrightarrow> days_in_month y m \<le> 31"
proof -
  assume "1 \<le> m" "m \<le> 12"
  then have "m = 1 \<or> m = 2 \<or> m = 3 \<or> m = 4 \<or> m = 5 \<or> m = 6 \<or> m = 7
    \<or> m = 8 \<or> m = 9 \<or> m = 10 \<or> m = 11 \<or> m = 12"
    by presburger
  then show ?thesis
    by (elim disjE) (simp_all add: days_in_month_def DAYS_IN_MONTH_def)
qed

lemma datetime_new_midnight_lt_max:
  assumes "datetime_new y m d 0 0 0 0 = Inr t"
  shows "dt_tuple t < dt_tuple datetime_max"
proof -
  from assms have t: "t = \<lparr>year = y, month = m, day = d, hour = 0, minute = 0, second = 0,
                          microsecond = 0\<rparr>"
    and b: "y \<le> 9999" "1 \<le> m" "m \<le> 12" "d \<le> days_in_month y m"
    by (auto simp: datetime_new_def split: if_splits)
  from b have "d \<le> 31" using days_in_month_le [of m y] by linarith
  with b show ?thesis
    by (auto simp: t dt_tuple_def datetime_max_def)
qed

lemma strptime_bdY_lt_max:
  assumes "strptime_bdY s = Inr t"
  shows "dt_tuple t < dt_tuple datetime_max"
proof -
  from assms obtain y m d where "datetime_new y m d 0 0 0 0 = Inr t"
    by (auto simp: strptime_bdY_def split: option.splits)
  then show ?thesis by (rule datetime_new_midnight_lt_max)
qed

lemma expiration_key_NA: "not_applicable item \<Longrightarrow> expiration_key item = Inr datetime_max"
  by (simp add: not_applicable_def expiration_key_def getitem_def)

lemma expiration_key_parsed:
  "map_of item ''License Expiration'' = Some (PStr s) \<Longrightarrow> s \<noteq> ''N/A'' \<Longrightarrow>
   expiration_key item = strptime_bdY s"
  by (simp add: expiration_key_def getitem_def)

lemma keys_of_zip:
  "keys_of f xs = Inr ks \<Longrightarrow>
   zip ks xs = map (\<lambda>x. (case f x of Inr k \<Rightarrow> k | Inl e \<Rightarrow> d, x)) xs
   \<and> (\<forall>x\<in>set xs. \<exists>k. f x = Inr k)"
proof (induction xs arbitrary: ks)
  case Nil
  then show ?case by simp
next
  case (Cons x xs)
  from Cons.prems obtain k ks' where k: "f x = Inr k" and ks': "keys_of f xs = Inr ks'"
    and ks: "ks = k # ks'"
    by (auto split: sum.splits)
  from Cons.IH [OF ks'] k ks show ?case by simp
qed

lemma keys_of_total:
  "\<forall>x\<in>set xs. \<exists>k. f x = Inr k \<Longrightarrow> \<exists>ks. keys_of f xs = Inr ks"
  by (induction xs) auto

lemma insort_key_map:
  "insort_key h (m x) (map m xs) = map m (insort_key (\<lambda>x. h (m x)) x xs)"
  by (induction xs) simp_all

lemma sort_key_map: "sort_key h (map m xs) = map m (sort_key (\<lambda>x. h (m x)) xs)"
  by (induction xs) (simp_all add: insort_key_map)

lemma sort_by_expiration_Inr:
  assumes "sort_by_expiration items = Inr out"
  shows "out = sort_key sort_rank items" and "\<forall>r\<in>set items. \<exists>k. expiration_key r = Inr k"
proof -
  from assms obtain ks where ks: "keys_of expiration_key items = Inr ks"
    and out: "out = map snd (sort_key (\<lambda>p. dt_tuple (fst p)) (zip ks items))"
    by (auto simp: sort_by_expiration_def split: sum.splits)
  from keys_of_zip [OF ks, of datetime_max]
  have z: "zip ks items = map (\<lambda>x. (case expiration_key x of Inr k \<Rightarrow> k | Inl e \<Rightarrow> datetime_max, x)) items"
    and a: "\<forall>r\<in>set items. \<exists>k. expiration_key r = Inr k"
    by simp_all
  have r: "(\<lambda>x. dt_tuple (case expiration_key x of Inr k \<Rightarrow> k | Inl e \<Rightarrow> datetime_max)) = sort_rank"
    by (rule ext) (simp add: sort_rank_def split: sum.splits)
  show "out = sort_key sort_rank items"
    by (simp add: out z sort_key_map r o_def)
  show "\<forall>r\<in>set items. \<exists>k. expiration_key r = Inr k" by (rule a)
qed

lemma sort_by_expiration_total:
  assumes "\<forall>r\<in>set items. \<exists>k. expiration_key r = Inr k"
  shows "sort_by_expiration items = Inr (sort_key sort_rank items)"
proof -
  from keys_of_total [OF assms] obtain ks where ks: "keys_of expiration_key items = Inr ks"
    by blast
  then obtain out where "sort_by_expiration items = Inr out"
    by (simp add: sort_by_expiration_def)
  with sort_by_expiration_Inr(1) [OF this] show ?thesis by simp
qed

text \<open>
  Claim C8. The sort of a bucket is stable: the records of any one key, the records with
  \<open>N/A\<close> among them, keep their relative order. Sorting a sorted bucket again returns
  the same sequence.
\<close>

theorem sort_stable_idempotent:
  assumes "sort_by_expiration items = Inr out"
  shows "(\<forall>k. filter (\<lambda>r. expiration_key r = Inr k) out
              = filter (\<lambda>r. expiration_key r = Inr k) items)
         \<and> sort_by_expiration out = Inr out"
proof
  note out = sort_by_expiration_Inr(1) [OF assms]
  note keys = sort_by_expiration_Inr(2) [OF assms]
  have set_out: "set out = set items" by (simp add: out)
  show "\<forall>k. filter (\<lambda>r. expiration_key r = Inr k) out
              = filter (\<lambda>r. expiration_key r = Inr k) items"
  proof
    fix k
    have eq: "expiration_key r = Inr k \<longleftrightarrow> sort_rank r = dt_tuple k" if "r \<in> set items" for r
    proof -
      from keys that obtain k' where "expiration_key r = Inr k'" by blast
      then show ?thesis by (auto simp: sort_rank_def dest: dt_tuple_inj)
    qed
    have "filter (\<lambda>r. expiration_key r = Inr k) out = filter (\<lambda>r. sort_rank r = dt_tuple k) out"
      by (rule filter_cong) (simp_all add: eq set_out)
    also have "\<dots> = filter (\<lambda>r. sort_rank r = dt_tuple k) items"
      by (simp add: out sort_key_stable)
    also have "\<dots> = filter (\<lambda>r. expiration_key r = Inr k) items"
      by (rule filter_cong) (simp_all add: eq)
    finally show "filter (\<lambda>r. expiration_key r = Inr k) out
              = filter (\<lambda>r. expiration_key r = Inr k) items" .
  qed
  have "sorted (map sort_rank out)" by (simp add: out)
  then have "sort_key sort_rank out = out" by (rule sort_key_id_if_sorted)
  moreover have "\<forall>r\<in>set out. \<exists>k. expiration_key r = Inr k"
    using keys set_out by simp
  ultimately show "sort_by_expiration out = Inr out"
    using sort_by_expiration_total [of out] by simp
qed

text \<open>
  Claim C2. For every sequence of records whose display fields are \<open>N/A\<close> or dates of
  the form \<^verbatim>\<open>Mon D, YYYY\<close>, in any order, the sort succeeds, the key of an \<open>N/A\<close>
  field being \<open>datetime.max\<close>, and in its result every record with \<open>N/A\<close> stands
  after every record with a date.
\<close>

theorem sort_places_not_applicable_last:
  assumes "\<forall>r\<in>set items. not_applicable r
             \<or> (\<exists>s t. map_of r ''License Expiration'' = Some (PStr s) \<and> strptime_bdY s = Inr t)"
  shows "\<exists>out. sort_by_expiration items = Inr out \<and> mset out = mset items
           \<and> (\<forall>i<length out. \<forall>j<length out.
                 not_applicable (out ! i) \<and> \<not> not_applicable (out ! j) \<longrightarrow> j < i)"
proof -
  have rank: "(not_applicable r \<longrightarrow> expiration_key r = Inr datetime_max)
      \<and> (\<not> not_applicable r \<longrightarrow> (\<exists>t. expiration_key r = Inr t \<and> dt_tuple t < dt_tuple datetime_max))"
    if "r \<in> set items" for r
  proof (cases "not_applicable r")
    case True
    then show ?thesis by (simp add: expiration_key_NA)
  next
    case False
    with assms that obtain s t where s: "map_of r ''License Expiration'' = Some (PStr s)"
      and t: "strptime_bdY s = Inr t"
      by blast
    from False s have "s \<noteq> ''N/A''" by (auto simp: not_applicable_def)
    with s t have "expiration_key r = Inr t" by (simp add: expiration_key_parsed)
    with False t show ?thesis by (simp add: strptime_bdY_lt_max)
  qed
  have keys: "\<forall>r\<in>set items. \<exists>k. expiration_key r = Inr k"
    using rank by blast
  define out where "out = sort_key sort_rank items"
  have s: "sort_by_expiration items = Inr out"
    unfolding out_def by (rule sort_by_expiration_total [OF keys])
  have m: "mset out = mset items" by (simp add: out_def)
  have set_out: "set out = set items" by (simp add: out_def)
  have sorted: "sorted (map sort_rank out)" by (simp add: out_def)
  have last: "j < i" if i: "i < length out" and j: "j < length out"
    and na: "not_applicable (out ! i)" and pa: "\<not> not_applicable (out ! j)" for i j
  proof (rule ccontr)
    assume "\<not> j < i"
    then have "i \<le> j" by simp
    with sorted j have "map sort_rank out ! i \<le> map sort_rank out ! j"
      by (simp add: sorted_iff_nth_mono)
    with i j have le: "sort_rank (out ! i) \<le> sort_rank (out ! j)" by simp
    from i set_out have "out ! i \<in> set items" by (metis nth_mem)
    with rank na have "expiration_key (out ! i) = Inr datetime_max"
      by blast
    then have ri: "sort_rank (out ! i) = dt_tuple datetime_max"
      by (simp add: sort_rank_def)
    from j set_out have "out ! j \<in> set items" by (metis nth_mem)
    with rank pa obtain t where "expiration_key (out ! j) = Inr t"
      and "dt_tuple t < dt_tuple datetime_max"
      by blast
    then have "sort_rank (out ! j) < dt_tuple datetime_max"
      by (simp add: sort_rank_def)
    with le ri show False by simp
  qed
  from s m last show ?thesis by blast
qed

theorem sort_stable_idempotent_witness:
  "sort_by_expiration [record_na, record_jan, record_na2]
     = Inr [record_jan, record_na, record_na2]
   \<and> filter (\<lambda>r. expiration_key r = Inr datetime_max) [record_jan, record_na, record_na2]
     = [record_na, record_na2]
   \<and> sort_by_expiration [record_jan, record_na, record_na2]
     = Inr [record_jan, record_na, record_na2]"
proof -
  have e: "sort_by_expiration [record_na, record_jan, record_na2]
             = Inr [record_jan, record_na, record_na2]"
    by code_simp
  have k: "expiration_key record_na = Inr datetime_max"
    "expiration_key record_na2 = Inr datetime_max"
    "expiration_key record_jan \<noteq> Inr datetime_max"
    by code_simp+
  from sort_stable_idempotent [OF e] e k show ?thesis by simp
qed

theorem sort_places_not_applicable_last_witness:
  "\<exists>out. sort_by_expiration [record_na, record_jan] = Inr out
      \<and> mset out = mset [record_na, record_jan]
      \<and> (\<forall>i<length out. \<forall>j<length out.
             not_applicable (out ! i) \<and> \<not> not_applicable (out ! j) \<longrightarrow> j < i)"
proof -
  have p: "strptime_bdY ''Jan 1, 2026''
     = Inr \<lparr>year = 2026, month = 1, day = 1, hour = 0, minute = 0, second = 0,
             microsecond = 0\<rparr>"
    by code_simp
  have h: "\<forall>r\<in>set [record_na, record_jan]. not_applicable r
             \<or> (\<exists>s t. map_of r ''License Expiration'' = Some (PStr s) \<and> strptime_bdY s = Inr t)"
    by (simp add: not_applicable_def record_na_def record_jan_def p)
  show ?thesis
    by (rule sort_places_not_applicable_last [OF h])
qed

subsection \<open>Co-term licenses\<close>

lemma co_term_license_Inr:
  assumes "co_term_license dash now n i = Inr r"
  shows "\<exists>overview st s remaining.
           getOrganizationLicensesOverview dash i = Inr overview
         \<and> map_of overview ''status'' = Some st
         \<and> map_of overview ''expirationDate'' = Some (PStr s)
         \<and> get_days_remaining now s = Inr remaining
         \<and> r = [(''Org. Name'', n), (''Org. ID'', i), (''License Status'', st),
                (''License Expiration'', PStr (strip (replace ''UTC'' '''' s))),
                (''Days Remaining'', PStr remaining)]"
  using assms unfolding co_term_license_def Let_def
  by (simp add: getitem_Inr split: sum.splits pyval.splits; auto)


subsection \<open>The dispatcher\<close>

lemma per_device_license_of_org:
  assumes "per_device_license dash n i calls = Inr (recs, calls')"
  shows "\<forall>r\<in>set recs. map_of r ''Org. ID'' = Some i \<and> map_of r ''Org. Name'' = Some n
            \<and> map fst r = per_device_columns"
proof -
  from per_device_license_Inr [OF assms] obtain licenses where
    l2: "list_all2 (\<lambda>l r. \<exists>c c'. per_device_entry dash n i l c = Inr (r, c')) licenses recs"
    by blast
  show ?thesis
  proof
    fix r assume "r \<in> set recs"
    then obtain k where k: "k < length recs" and r: "r = recs ! k"
      by (auto simp: in_set_conv_nth)
    from l2 k have "k < length licenses" by (simp add: list_all2_lengthD)
    from list_all2_nthD [OF l2 this] obtain c c' where
      "per_device_entry dash n i (licenses ! k) c = Inr (recs ! k, c')"
      by blast
    from per_device_entry_keys [OF this] r
    show "map_of r ''Org. ID'' = Some i \<and> map_of r ''Org. Name'' = Some n
            \<and> map fst r = per_device_columns"
      by simp
  qed
qed

lemma dispatch_step:
  assumes "dispatch dash console_print utcnow len_orgs (org # orgs) c cot pd calls = Inr res"
  shows "\<exists>name m. map_of org ''name'' = Some name \<and> org_model org = Some m
     \<and> (if m = PStr ''co-term''
         then \<exists>i r. map_of org ''id'' = Some i
                \<and> co_term_license dash (utcnow c) name i = Inr r
                \<and> dispatch dash console_print utcnow len_orgs orgs (c + 1) (cot @ [r]) pd calls = Inr res
         else if m = PStr ''per-device''
         then \<exists>i recs calls1. map_of org ''id'' = Some i
                \<and> per_device_license dash name i calls = Inr (recs, calls1)
                \<and> dispatch dash console_print utcnow len_orgs orgs (c + 1) cot (pd @ [recs]) calls1 = Inr res
         else dispatch dash console_print utcnow len_orgs orgs (c + 1) cot pd calls = Inr res)"
proof -
  obtain name where name: "getitem org ''name'' = Inr name"
    using assms by (cases "getitem org ''name''") simp_all
  have pr: "console_print ''Processing Org: {} ({} of {})''
              [name, PStr (str_int (int c)), PInt (int len_orgs)] = Inr ()"
    using assms name
    by (cases "console_print ''Processing Org: {} ({} of {})''
                 [name, PStr (str_int (int c)), PInt (int len_orgs)]") simp_all
  obtain lic where lic: "getitem org ''licensing'' = Inr lic"
    using assms name pr by (cases "getitem org ''licensing''") simp_all
  obtain licensing where licensing: "lic = PDict licensing"
    using assms name pr lic by (cases lic) simp_all
  obtain m where m: "getitem licensing ''model'' = Inr m"
    using assms name pr lic licensing by (cases "getitem licensing ''model''") simp_all
  have om: "org_model org = Some m"
    using lic licensing m by (simp add: org_model_def getitem_Inr)
  note facts = name pr lic licensing m
  have "if m = PStr ''co-term''
         then \<exists>i r. map_of org ''id'' = Some i
                \<and> co_term_license dash (utcnow c) name i = Inr r
                \<and> dispatch dash console_print utcnow len_orgs orgs (c + 1) (cot @ [r]) pd calls = Inr res
         else if m = PStr ''per-device''
         then \<exists>i recs calls1. map_of org ''id'' = Some i
                \<and> per_device_license dash name i calls = Inr (recs, calls1)
                \<and> dispatch dash console_print utcnow len_orgs orgs (c + 1) cot (pd @ [recs]) calls1 = Inr res
         else dispatch dash console_print utcnow len_orgs orgs (c + 1) cot pd calls = Inr res"
  proof (cases "m = PStr ''co-term''")
    case True
    obtain i where i: "getitem org ''id'' = Inr i"
      using assms facts True by (cases "getitem org ''id''") simp_all
    obtain r where r: "co_term_license dash (utcnow c) name i = Inr r"
      using assms facts True i
      by (cases "co_term_license dash (utcnow c) name i") simp_all
    have p2: "console_print ''- Found the Following Co-term Information: {}'' [PDict r]
                = Inr ()"
      using assms facts True i r
      by (cases "console_print ''- Found the Following Co-term Information: {}'' [PDict r]")
        simp_all
    have "dispatch dash console_print utcnow len_orgs orgs (c + 1) (cot @ [r]) pd calls = Inr res"
      using assms facts True i r p2 by simp
    with True i r show ?thesis by (auto simp: getitem_Inr)
  next
    case False
    show ?thesis
    proof (cases "m = PStr ''per-device''")
      case True
      obtain i where i: "getitem org ''id'' = Inr i"
        using assms facts True by (cases "getitem org ''id''") simp_all
      obtain recs calls1 where r: "per_device_license dash name i calls = Inr (recs, calls1)"
        using assms facts True i
        by (cases "per_device_license dash name i calls") auto
      have p3: "console_print ''- Found the Following Per-Device Information: {}''
                  [PList (map PDict recs)] = Inr ()"
        using assms facts True i r
        by (cases "console_print ''- Found the Following Per-Device Information: {}''
                     [PList (map PDict recs)]") simp_all
      have "dispatch dash console_print utcnow len_orgs orgs (c + 1) cot (pd @ [recs]) calls1
              = Inr res"
        using assms facts True i r p3 by simp
      with True i r show ?thesis by (auto simp: getitem_Inr)
    next
      case F2: False
      have "dispatch dash console_print utcnow len_orgs orgs (c + 1) cot pd calls = Inr res"
        using assms facts False F2 by simp
      with False F2 show ?thesis by simp
    qed
  qed
  with name om show ?thesis by (auto simp: getitem_Inr)
qed

lemma dispatch_skip:
  assumes "map_of org ''name'' = Some name" and "org_model org = Some m"
    and "m \<noteq> PStr ''co-term''" and "m \<noteq> PStr ''per-device''"
    and "console_print ''Processing Org: {} ({} of {})''
           [name, PStr (str_int (int c)), PInt (int len_orgs)] = Inr ()"
  shows "dispatch dash console_print utcnow len_orgs (org # orgs) c cot pd calls
           = dispatch dash console_print utcnow len_orgs orgs (c + 1) cot pd calls"
  using assms
  by (auto simp: getitem_def org_model_def split: option.splits pyval.splits)

lemma dispatch_buckets:
  "dispatch dash console_print utcnow len_orgs orgs c cot pd calls = Inr (cot', pd', calls') \<Longrightarrow>
   \<exists>cn pn. cot' = cot @ cn \<and> pd' = pd @ pn
     \<and> list_all2 of_org (filter (has_model ''co-term'') orgs) cn
     \<and> list_all2 (\<lambda>org recs. \<forall>r\<in>set recs. of_org org r)
          (filter (has_model ''per-device'') orgs) pn
     \<and> (\<forall>r\<in>set cn. map fst r = coterm_columns)
     \<and> (\<forall>recs\<in>set pn. \<forall>r\<in>set recs. map fst r = per_device_columns)"
proof (induction orgs arbitrary: c cot pd calls)
  case Nil
  then show ?case by simp
next
  case (Cons org orgs)
  from dispatch_step [OF Cons.prems] obtain name m where
    name: "map_of org ''name'' = Some name" and m: "org_model org = Some m"
    and step: "if m = PStr ''co-term''
         then \<exists>i r. map_of org ''id'' = Some i
                \<and> co_term_license dash (utcnow c) name i = Inr r
                \<and> dispatch dash console_print utcnow len_orgs orgs (c + 1) (cot @ [r]) pd calls = Inr (cot', pd', calls')
         else if m = PStr ''per-device''
         then \<exists>i recs calls1. map_of org ''id'' = Some i
                \<and> per_device_license dash name i calls = Inr (recs, calls1)
                \<and> dispatch dash console_print utcnow len_orgs orgs (c + 1) cot (pd @ [recs]) calls1 = Inr (cot', pd', calls')
         else dispatch dash console_print utcnow len_orgs orgs (c + 1) cot pd calls = Inr (cot', pd', calls')"
    by blast
  show ?case
  proof (cases "m = PStr ''co-term''")
    case True
    with step obtain i r where i: "map_of org ''id'' = Some i"
      and r: "co_term_license dash (utcnow c) name i = Inr r"
      and rest: "dispatch dash console_print utcnow len_orgs orgs (c + 1) (cot @ [r]) pd calls = Inr (cot', pd', calls')"
      by auto
    from Cons.IH [OF rest] obtain cn pn where ih:
      "cot' = (cot @ [r]) @ cn" "pd' = pd @ pn"
      "list_all2 of_org (filter (has_model ''co-term'') orgs) cn"
      "list_all2 (\<lambda>org recs. \<forall>r\<in>set recs. of_org org r)
          (filter (has_model ''per-device'') orgs) pn"
      "\<forall>r\<in>set cn. map fst r = coterm_columns"
      "\<forall>recs\<in>set pn. \<forall>r\<in>set recs. map fst r = per_device_columns"
      by blast
    from co_term_license_Inr [OF r] have rr: "of_org org r" "map fst r = coterm_columns"
      by (auto simp: of_org_def i name coterm_columns_def)
    have hm: "has_model ''co-term'' org" "\<not> has_model ''per-device'' org"
      using True m by (simp_all add: has_model_def)
    show ?thesis
      by (rule exI [of _ "r # cn"], rule exI [of _ pn]) (simp add: ih hm rr)
  next
    case False
    show ?thesis
    proof (cases "m = PStr ''per-device''")
      case True
      with step False obtain i recs calls1 where i: "map_of org ''id'' = Some i"
        and r: "per_device_license dash name i calls = Inr (recs, calls1)"
        and rest: "dispatch dash console_print utcnow len_orgs orgs (c + 1) cot (pd @ [recs]) calls1 = Inr (cot', pd', calls')"
        by auto
      from Cons.IH [OF rest] obtain cn pn where ih:
        "cot' = cot @ cn" "pd' = (pd @ [recs]) @ pn"
        "list_all2 of_org (filter (has_model ''co-term'') orgs) cn"
        "list_all2 (\<lambda>org recs. \<forall>r\<in>set recs. of_org org r)
            (filter (has_model ''per-device'') orgs) pn"
        "\<forall>r\<in>set cn. map fst r = coterm_columns"
        "\<forall>recs\<in>set pn. \<forall>r\<in>set recs. map fst r = per_device_columns"
        by blast
      from per_device_license_of_org [OF r]
      have rr: "\<forall>r\<in>set recs. of_org org r" "\<forall>r\<in>set recs. map fst r = per_device_columns"
        by (simp_all add: of_org_def i name)
      have hm: "\<not> has_model ''co-term'' org" "has_model ''per-device'' org"
        using True m by (simp_all add: has_model_def)
      show ?thesis
        by (rule exI [of _ cn], rule exI [of _ "recs # pn"]) (simp add: ih hm rr)
    next
      case F2: False
      with step False have
        rest: "dispatch dash console_print utcnow len_orgs orgs (c + 1) cot pd calls = Inr (cot', pd', calls')"
        by simp
      from Cons.IH [OF rest] obtain cn pn where ih:
        "cot' = cot @ cn" "pd' = pd @ pn"
        "list_all2 of_org (filter (has_model ''co-term'') orgs) cn"
        "list_all2 (\<lambda>org recs. \<forall>r\<in>set recs. of_org org r)
            (filter (has_model ''per-device'') orgs) pn"
        "\<forall>r\<in>set cn. map fst r = coterm_columns"
        "\<forall>recs\<in>set pn. \<forall>r\<in>set recs. map fst r = per_device_columns"
        by blast
      have hm: "\<not> has_model ''co-term'' org" "\<not> has_model ''per-device'' org"
        using False F2 m by (simp_all add: has_model_def)
      show ?thesis
        by (rule exI [of _ cn], rule exI [of _ pn]) (simp add: ih hm)
    qed
  qed
qed

text \<open>
  Claim C5. The loop routes an organization by its licensing model alone. When it returns,
  the co-term bucket holds one record for each co-term organization and the per-device
  bucket one list of records for each per-device organization, in the order of the
  input; an organization of any other model is in neither. The step of the loop for such
  an organization, once its progress line is printed, raises nothing and leaves both
  buckets as they are.
\<close>

theorem dispatch_routes_by_model:
  "(dispatch dash console_print utcnow len_orgs orgs c [] [] calls = Inr (coterm, per_device, calls') \<longrightarrow>
      list_all2 of_org (filter (has_model ''co-term'') orgs) coterm
    \<and> list_all2 (\<lambda>org recs. \<forall>r\<in>set recs. of_org org r)
         (filter (has_model ''per-device'') orgs) per_device)
   \<and> (map_of org ''name'' = Some name \<and> org_model org = Some m
        \<and> m \<noteq> PStr ''co-term'' \<and> m \<noteq> PStr ''per-device''
        \<and> console_print ''Processing Org: {} ({} of {})''
              [name, PStr (str_int (int c)), PInt (int len_orgs)] = Inr () \<longrightarrow>
      dispatch dash console_print utcnow len_orgs (org # orgs) c coterm0 per_device0 calls
        = dispatch dash console_print utcnow len_orgs orgs (c + 1) coterm0 per_device0 calls)"
proof (intro conjI impI)
  assume "dispatch dash console_print utcnow len_orgs orgs c [] [] calls = Inr (coterm, per_device, calls')"
  from dispatch_buckets [OF this]
  show "list_all2 of_org (filter (has_model ''co-term'') orgs) coterm"
    and "list_all2 (\<lambda>org recs. \<forall>r\<in>set recs. of_org org r)
         (filter (has_model ''per-device'') orgs) per_device"
    by auto
next
  assume "map_of org ''name'' = Some name \<and> org_model org = Some m
        \<and> m \<noteq> PStr ''co-term'' \<and> m \<noteq> PStr ''per-device''
        \<and> console_print ''Processing Org: {} ({} of {})''
              [name, PStr (str_int (int c)), PInt (int len_orgs)] = Inr ()"
  then have "map_of org ''name'' = Some name" "org_model org = Some m"
    "m \<noteq> PStr ''co-term''" "m \<noteq> PStr ''per-device''"
    "console_print ''Processing Org: {} ({} of {})''
       [name, PStr (str_int (int c)), PInt (int len_orgs)] = Inr ()"
    by simp_all
  then show "dispatch dash console_print utcnow len_orgs (org # orgs) c coterm0 per_device0 calls
        = dispatch dash console_print utcnow len_orgs orgs (c + 1) coterm0 per_device0 calls"
    by (rule dispatch_skip)
qed


lemma example_dispatch:
  "dispatch example_dashboard example_console example_clock 3 example_orgs 1 [] [] []
     = Inr ([record_coterm], [[record_unused, record_expired]], [PStr ''N_1''])"
  by code_simp

theorem dispatch_routes_by_model_witness:
  "dispatch example_dashboard example_console example_clock 3 example_orgs 1 [] [] []
     = Inr ([record_coterm], [[record_unused, record_expired]], [PStr ''N_1''])
   \<and> list_all2 of_org (filter (has_model ''co-term'') example_orgs) [record_coterm]
   \<and> list_all2 (\<lambda>org recs. \<forall>r\<in>set recs. of_org org r)
        (filter (has_model ''per-device'') example_orgs) [[record_unused, record_expired]]
   \<and> org_model (example_orgs ! 2) = Some (PStr ''subscription'')
   \<and> dispatch example_dashboard example_console example_clock 3
        (example_orgs ! 2 # example_orgs) 1
        [] [] []
     = dispatch example_dashboard example_console example_clock 3 example_orgs (1 + 1) [] [] []"
proof -
  have h: "map_of (example_orgs ! 2) ''name'' = Some (PStr ''Core'')
      \<and> org_model (example_orgs ! 2) = Some (PStr ''subscription'')
      \<and> PStr ''subscription'' \<noteq> PStr ''co-term''
      \<and> PStr ''subscription'' \<noteq> PStr ''per-device''"
    by (simp add: example_orgs_def org_model_def)
  have pr: "example_console ''Processing Org: {} ({} of {})''
              [PStr ''Core'', PStr (str_int (int 1)), PInt (int 3)] = Inr ()"
    by (simp add: example_console_def)
  from dispatch_routes_by_model [where dash = example_dashboard
      and console_print = example_console and len_orgs = 3
      and utcnow = example_clock and orgs = example_orgs and c = 1
      and calls = "[]" and coterm = "[record_coterm]"
      and per_device = "[[record_unused, record_expired]]" and calls' = "[PStr ''N_1'']"
      and org = "example_orgs ! 2" and name = "PStr ''Core''"
      and m = "PStr ''subscription''" and ?coterm0.0 = "[]" and ?per_device0.0 = "[]"]
    example_dispatch h pr
  show ?thesis by blast
qed

subsection \<open>The sheets of the report\<close>

lemma fold_seen_subset:
  "set ks \<subseteq> set seen \<Longrightarrow>
   fold (\<lambda>k seen. if k \<in> set seen then seen else seen @ [k]) ks seen = seen"
  by (induction ks arbitrary: seen) simp_all

lemma fold_seen_distinct:
  "distinct (seen @ ks) \<Longrightarrow>
   fold (\<lambda>k seen. if k \<in> set seen then seen else seen @ [k]) ks seen = seen @ ks"
  by (induction ks arbitrary: seen) simp_all

lemma fold_seen_concat:
  "\<forall>xs\<in>set xss. set xs \<subseteq> set seen \<Longrightarrow>
   fold (\<lambda>k seen. if k \<in> set seen then seen else seen @ [k]) (concat xss) seen = seen"
  by (induction xss) (simp_all add: fold_seen_subset)

lemma unique_keys_uniform:
  assumes "records \<noteq> []" and "\<forall>r\<in>set records. map fst r = ks" and "distinct ks"
  shows "unique_keys (concat (map (map fst) records)) = ks"
proof -
  from assms(1) obtain r rs where rs: "records = r # rs" by (cases records) auto
  with assms(2) have r: "map fst r = ks" and all: "\<forall>x\<in>set rs. map fst x = ks" by simp_all
  have first: "fold (\<lambda>k seen. if k \<in> set seen then seen else seen @ [k]) ks [] = ks"
    using fold_seen_distinct [of "[]" ks] assms(3) by simp
  have "\<forall>xs\<in>set (map (map fst) rs). set xs \<subseteq> set ks"
    using all by auto
  then have "fold (\<lambda>k seen. if k \<in> set seen then seen else seen @ [k])
               (concat (map (map fst) rs)) ks = ks"
    by (rule fold_seen_concat)
  with first show ?thesis
    by (simp add: unique_keys_def rs r)
qed

lemma DataFrame_uniform:
  assumes "records \<noteq> []" and "\<forall>r\<in>set records. map fst r = ks" and "distinct ks"
  shows "fst (DataFrame records) = ks"
  using unique_keys_uniform [OF assms] by (simp add: DataFrame_def Let_def)

lemma DataFrame_rows: "length (snd (DataFrame records)) = length records"
  by (simp add: DataFrame_def Let_def)

lemma DataFrame_empty: "snd (DataFrame records) = [] \<Longrightarrow> fst (DataFrame records) = []"
  by (simp add: DataFrame_def Let_def unique_keys_def)

lemma sort_by_expiration_set:
  assumes "sort_by_expiration items = Inr out"
  shows "set out = set items"
  using sort_by_expiration_Inr(1) [OF assms] by simp

lemma per_device_sheets_columns:
  "per_device_sheets pd written = (sheets, err) \<Longrightarrow>
   \<forall>recs\<in>set pd. \<forall>r\<in>set recs. map fst r = per_device_columns \<Longrightarrow>
   \<exists>new. sheets = written @ new
     \<and> (\<forall>s\<in>set new. rows s \<noteq> [] \<and> columns s = per_device_columns)"
proof (induction pd arbitrary: written)
  case Nil
  then show ?case by simp
next
  case (Cons recs pd)
  show ?case
  proof (cases "sort_by_expiration recs")
    case (Inl e)
    with Cons.prems(1) show ?thesis by simp
  next
    case (Inr sorted)
    show ?thesis
    proof (cases sorted)
      case Nil
      with Cons.prems(1) Inr show ?thesis by (simp add: Let_def)
    next
      case (Cons first rest)
      note fr = this
      show ?thesis
      proof (cases "getitem first ''Org. Name''")
        case (Inl e)
        with Cons.prems(1) Inr fr show ?thesis by (simp add: Let_def)
      next
        case name: (Inr name)
        from Cons.prems(1) Inr fr name
        have rec: "per_device_sheets pd (written @ [to_excel (DataFrame sorted) name])
                     = (sheets, err)"
          by (simp add: Let_def)
        from Cons.IH [OF rec] Cons.prems(2) obtain new where
          new: "sheets = (written @ [to_excel (DataFrame sorted) name]) @ new"
            "\<forall>s\<in>set new. rows s \<noteq> [] \<and> columns s = per_device_columns"
          by auto
        have ne: "sorted \<noteq> []" using fr by simp
        moreover have "\<forall>r\<in>set sorted. map fst r = per_device_columns"
          using Cons.prems(2) sort_by_expiration_set [OF Inr] by simp
        moreover have "distinct per_device_columns" by (simp add: per_device_columns_def)
        ultimately have "fst (DataFrame sorted) = per_device_columns"
          by (rule DataFrame_uniform)
        moreover have "snd (DataFrame sorted) \<noteq> []"
          using ne DataFrame_rows [of sorted] by auto
        ultimately have this_sheet:
          "rows (to_excel (DataFrame sorted) name) \<noteq> []
           \<and> columns (to_excel (DataFrame sorted) name) = per_device_columns"
          by (simp add: to_excel_def)
        show ?thesis
          by (rule exI [of _ "to_excel (DataFrame sorted) name # new"])
            (simp add: new this_sheet)
      qed
    qed
  qed
qed

text \<open>
  Claim C9, amended. In the report that \<open>main\<close> writes, the co-term sheet comes first.
  When it has at least one data row, its header row is exactly the five co-term columns
  in their order; when it has no data row, it has no header row either. Every sheet of a
  per-device organization has at least one data row, and exactly the eight per-device
  columns in their order as its header row.
\<close>

theorem main_sheet_headers:
  assumes "main dash console_print utcnow = Inr sheets"
  shows "\<exists>coterm_sheet per_device.
           sheets = coterm_sheet # per_device
         \<and> sheet_name coterm_sheet = PStr ''Co-term Customers''
         \<and> (rows coterm_sheet \<noteq> [] \<longrightarrow> columns coterm_sheet = coterm_columns)
         \<and> (rows coterm_sheet = [] \<longrightarrow> columns coterm_sheet = [])
         \<and> (\<forall>s\<in>set per_device. rows s \<noteq> [] \<and> columns s = per_device_columns)"
proof -
  obtain orgs where orgs: "getOrganizations dash = Inr orgs"
    using assms by (cases "getOrganizations dash") (simp_all add: main_def)
  obtain cot pd calls where
    d: "dispatch dash console_print utcnow (length orgs) orgs 1 [] [] [] = Inr (cot, pd, calls)"
    using assms orgs
    by (cases "dispatch dash console_print utcnow (length orgs) orgs 1 [] [] []")
      (auto simp: main_def)
  have w: "write_report cot pd = (sheets, None)"
    using assms orgs d
    by (cases "write_report cot pd") (auto simp: main_def split: option.splits)
  obtain sorted where sorted: "sort_by_expiration cot = Inr sorted"
    using w by (cases "sort_by_expiration cot") (simp_all add: write_report_def)
  let ?first = "to_excel (DataFrame sorted) (PStr ''Co-term Customers'')"
  have p: "per_device_sheets pd [?first] = (sheets, None)"
    using w sorted by (simp add: write_report_def Let_def)
  from dispatch_buckets [OF d]
  have k1: "\<forall>r\<in>set cot. map fst r = coterm_columns"
    and k2: "\<forall>recs\<in>set pd. \<forall>r\<in>set recs. map fst r = per_device_columns"
    by auto
  from per_device_sheets_columns [OF p k2] obtain new where
    new: "sheets = [?first] @ new"
      "\<forall>s\<in>set new. rows s \<noteq> [] \<and> columns s = per_device_columns"
    by blast
  have c1: "fst (DataFrame sorted) = coterm_columns" if "snd (DataFrame sorted) \<noteq> []"
  proof -
    from that have "sorted \<noteq> []"
      using DataFrame_rows [of sorted] by auto
    moreover have "\<forall>r\<in>set sorted. map fst r = coterm_columns"
      using k1 sort_by_expiration_set [OF sorted] by simp
    moreover have "distinct coterm_columns" by (simp add: coterm_columns_def)
    ultimately show "fst (DataFrame sorted) = coterm_columns"
      by (rule DataFrame_uniform)
  qed
  show ?thesis
    by (rule exI [of _ ?first], rule exI [of _ new])
      (simp add: new c1 DataFrame_empty to_excel_def)
qed

lemma example_main:
  "main example_dashboard example_console example_clock = Inr [sheet_coterm, sheet_bolt]"
  by code_simp

lemma example_main_empty:
  "main empty_dashboard example_console example_clock
     = Inr [\<lparr>sheet_name = PStr ''Co-term Customers'', columns = [], rows = []\<rparr>]"
  by code_simp

theorem main_sheet_headers_witness:
  "main example_dashboard example_console example_clock = Inr [sheet_coterm, sheet_bolt]
   \<and> rows sheet_coterm \<noteq> []
   \<and> columns sheet_coterm = coterm_columns
   \<and> rows sheet_bolt \<noteq> []
   \<and> columns sheet_bolt = per_device_columns
   \<and> main empty_dashboard example_console example_clock
     = Inr [\<lparr>sheet_name = PStr ''Co-term Customers'', columns = [], rows = []\<rparr>]"
proof -
  have r: "rows sheet_coterm \<noteq> []" by (simp add: sheet_coterm_def)
  from main_sheet_headers [OF example_main] main_sheet_headers [OF example_main_empty]
    r example_main example_main_empty
  show ?thesis by auto
qed

text \<open>
  Claim C9 as stated fails for an empty co-term bucket: a data frame made of no record
  has no column, and the sheet is written without a header row.
\<close>

theorem main_empty_sheet_counterexample:
  "main empty_dashboard example_console example_clock
     = Inr [\<lparr>sheet_name = PStr ''Co-term Customers'', columns = [], rows = []\<rparr>]
   \<and> [] \<noteq> coterm_columns"
  by code_simp

end
